theory Spec2Isabelle
  imports Main "HOL-Library.Word"
begin

unbundle bit_operations_syntax

section \<open>Values, errors and logging\<close>

text \<open>
  A shallow embedding of \<^verbatim>\<open>lib/server.go\<close> (the fabric-ca server) and of the
  \<^verbatim>\<open>initMain\<close> command.  Go's \<^verbatim>\<open>int\<close> is only compared and printed by this code, never
  computed with, so it is modelled by \<open>int\<close>.  A Go \<^verbatim>\<open>error\<close> value carries its
  message; a panic and a \<^verbatim>\<open>log.Fatal\<close> (which ends the process) are outcomes of their own.
  A function that returns \<^verbatim>\<open>error\<close> returns \<open>error option\<close> here (\<open>None\<close> is
  \<^verbatim>\<open>nil\<close>), one that returns a value and an error returns \<open>error + 'a\<close>.
\<close>

type_synonym bytes = "8 word list"
type_synonym FileMode = "32 word"

datatype error = Error string | Panic string | Fatal string

datatype level = LevelDebug | LevelInfo | LevelWarning | LevelError | LevelCritical | LevelFatal

text \<open>\<^verbatim>\<open>strconv.Itoa\<close> and the verb \<^verbatim>\<open>%d\<close>: decimal digits, with a sign.\<close>

fun digits_of :: "nat \<Rightarrow> string" where
  "digits_of n =
     (if n < 10 then [char_of (48 + n)]
      else digits_of (n div 10) @ [char_of (48 + n mod 10)])"

declare digits_of.simps [simp del]

definition Itoa :: "int \<Rightarrow> string" where
  "Itoa i = (if i < 0 then CHR ''-'' # digits_of (nat (- i)) else digits_of (nat i))"

section \<open>The configuration\<close>

text \<open>
  The affiliation tree of the configuration is an \<^verbatim>\<open>interface{}\<close>: the loader inspects
  its dynamic type.  \<open>NilNode\<close> is the nil interface; a Go map is given as the list of its
  entries in the order the \<^verbatim>\<open>range\<close> loop visits them (any order is possible);
  \<open>Other t\<close> is a value of any other dynamic type, \<open>t\<close> being the type's name.
\<close>

datatype node =
    NilNode
  | Str string
  | StrList "string list"
  | IfaceList "node list"
  | MapNode "(string \<times> node) list"
  | Other string

text \<open>
  \<^verbatim>\<open>ServerConfig\<close> and the types of its fields are declared outside \<^verbatim>\<open>server.go\<close>; the
  records below hold the fields that \<^verbatim>\<open>server.go\<close> reads or writes.  Values that the
  server only hands on to other packages (subject names, the CSP options, a signing
  policy, TLS client settings, handles) are of the type parameter \<open>'o\<close>.
\<close>

record CAInfo =
  CA_Keyfile :: string
  CA_Certfile :: string

record 'o CSRInfo =
  CSR_CN :: string
  CSR_Names :: "'o list"
  CSR_Hosts :: "string list"
  CSR_CA :: "'o option"
  CSR_SerialNumber :: string

record 'o DBConfig =
  DB_Type :: string
  DB_Datasource :: string
  DB_TLS :: 'o

record 'o LDAPConfig =
  LDAP_Enabled :: bool
  LDAP_Settings :: 'o

record TLSConfig =
  TLS_Enabled :: bool
  TLS_CertFile :: string
  TLS_KeyFile :: string

record ServerConfigIdentity =
  ID :: string
  Pass :: string
  Type :: string
  Affiliation :: string
  MaxEnrollments :: int
  Attributes :: "(string \<times> string) list"

record ServerConfigRegistry =
  Registry_MaxEnrollments :: int
  Registry_Identities :: "ServerConfigIdentity list"

record 'o ServerConfig =
  Debug :: bool
  Address :: string
  Port :: int
  CA :: CAInfo
  CSR :: "'o CSRInfo"
  CSP :: "'o option"
  DB :: "'o DBConfig"
  LDAP :: "'o LDAPConfig"
  Signing :: "'o option"
  Remote :: string
  TLS :: TLSConfig
  Registry :: ServerConfigRegistry
  Affiliations :: node

section \<open>The server\<close>

text \<open>
  \<^verbatim>\<open>s.registry\<close> is an interface value with two implementations: the database accessor
  (made from \<^verbatim>\<open>s.db\<close>) and the LDAP client.
\<close>

datatype 'o UserRegistry = DBAccessor "'o option" | LDAPClient 'o

record 'o Server =
  HomeDir :: string
  BlockingStart :: bool
  Config :: "'o ServerConfig option"
  db :: "'o option"
  csp :: "'o option"
  certDBAccessor :: "'o option"
  registry :: "'o UserRegistry option"
  enrollSigner :: "'o option"
  mux :: "'o option"
  listener :: "'o option"
  serveError :: "string option"

definition nil_dereference :: error where
  "nil_dereference = Panic ''runtime error: invalid memory address or nil pointer dereference''"

section \<open>Enrollment quota and affiliation paths\<close>

definition getMaxEnrollments :: "'o Server \<Rightarrow> int \<Rightarrow> error + int" where
  "getMaxEnrollments s requestedMax =
     (case Config s of
        None \<Rightarrow> Inl nil_dereference
      | Some c \<Rightarrow>
          (let configuredMax = Registry_MaxEnrollments (Registry c) in
           if requestedMax < 0 then Inr configuredMax
           else if configuredMax = 0 then Inr requestedMax
           else if requestedMax = 0 \<and> configuredMax \<noteq> 0 then
             Inl (Error (''Infinite enrollments is not permitted; max is '' @ Itoa configuredMax))
           else if requestedMax > configuredMax then
             Inl (Error (''Max enrollments of '' @ Itoa requestedMax @
                         '' is not permitted; max is '' @ Itoa configuredMax))
           else Inr requestedMax))"

definition affiliationPath :: "string \<Rightarrow> string \<Rightarrow> string" where
  "affiliationPath name parent = (if parent = '''' then name else parent @ ''.'' @ name)"

section \<open>The world outside the server\<close>

text \<open>
  Everything the server calls in other packages (the operating system, the BCCSP
  factory, cfssl, the database and LDAP back ends, the registry's implementations, the
  HTTP and network libraries, and the constants and constructors that package
  \<^verbatim>\<open>lib\<close> declares in other files) is a parameter of the model: a field of the record
  \<open>env\<close>.  The state of that outside world (the file system, the databases, the
  network) is a value of the type parameter \<open>'x\<close>; an operation that changes it returns
  the new state.  No theorem assumes anything about these parameters beyond what its
  statement says.
\<close>

record Attribute =
  Attribute_Name :: string
  Attribute_Value :: string

record UserInfo =
  UserInfo_Name :: string
  UserInfo_Pass :: string
  UserInfo_Type :: string
  UserInfo_Group :: string
  UserInfo_Attributes :: "Attribute list"
  UserInfo_MaxEnrollments :: int

record 'o CertificateRequest =
  Req_CN :: string
  Req_Names :: "'o list"
  Req_Hosts :: "string list"
  Req_KeyRequest :: "string \<times> nat"
  Req_CA :: "'o option"
  Req_SerialNumber :: string

text \<open>\<^verbatim>\<open>csr.NewBasicKeyRequest\<close>: "only does ecdsa 256", as the source notes.\<close>

definition NewBasicKeyRequest :: "string \<times> nat" where
  "NewBasicKeyRequest = (''ecdsa'', 256)"

record 'o globals =
  EnrollSigner :: "'o option"
  UserRegistry :: "'o UserRegistry option"
  MyCertDBAccessor :: "'o option"
  CAKeyFile :: string
  CACertFile :: string
  MyCSP :: "'o option"
  log_Level :: level

record ('x, 'o) os_env =
  os_Getwd :: "'x \<Rightarrow> string \<times> string option"
  util_MakeFileAbs :: "string \<Rightarrow> string \<Rightarrow> 'x \<Rightarrow> string + string"
  util_FileExists :: "string \<Rightarrow> 'x \<Rightarrow> bool"
  util_GetDefaultConfigFile :: "string \<Rightarrow> 'x \<Rightarrow> string"
  filepath_Dir :: "string \<Rightarrow> string"
  path_Join :: "string \<Rightarrow> string \<Rightarrow> string"
  os_MkdirAll :: "string \<Rightarrow> FileMode \<Rightarrow> 'x \<Rightarrow> string option \<times> 'x"
  ioutil_WriteFile :: "string \<Rightarrow> bytes \<Rightarrow> FileMode \<Rightarrow> 'x \<Rightarrow> string option \<times> 'x"

record ('x, 'o) crypto_env =
  factory_InitFactories :: "'o option \<Rightarrow> 'x \<Rightarrow> string option \<times> 'x"
  factory_GetDefault :: "'x \<Rightarrow> 'o option"
  initca_New :: "'o CertificateRequest \<Rightarrow> 'x \<Rightarrow> (string + bytes \<times> bytes \<times> bytes) \<times> 'x"
  fmt_Request :: "'o CertificateRequest \<Rightarrow> string"
  config_DefaultPolicy :: 'o
  OverrideRemotes :: "'o \<Rightarrow> string \<Rightarrow> string option \<times> 'o"
  universal_NewSigner ::
    "string \<Rightarrow> string \<Rightarrow> bool \<Rightarrow> 'o \<Rightarrow> 'x \<Rightarrow> ('o option \<times> string option) \<times> 'x"
  SetDBAccessor :: "'o \<Rightarrow> 'o option \<Rightarrow> 'o"

record ('x, 'o) db_env =
  dbutil_NewUserRegistrySQLLite3 ::
    "string \<Rightarrow> 'x \<Rightarrow> ('o option \<times> bool \<times> string option) \<times> 'x"
  dbutil_NewUserRegistryPostgres ::
    "string \<Rightarrow> 'o \<Rightarrow> 'x \<Rightarrow> ('o option \<times> bool \<times> string option) \<times> 'x"
  dbutil_NewUserRegistryMySQL ::
    "string \<Rightarrow> 'o \<Rightarrow> 'x \<Rightarrow> ('o option \<times> bool \<times> string option) \<times> 'x"
  NewCertDBAccessor :: "'o option \<Rightarrow> 'o"
  ldap_NewClient :: "'o LDAPConfig \<Rightarrow> 'x \<Rightarrow> ('o option \<times> string option) \<times> 'x"

text \<open>
  The methods of the interface \<^verbatim>\<open>spi.UserRegistry\<close> that the server calls, for both
  implementations.  \<^verbatim>\<open>GetUser\<close> is a lookup: it reads the outside world and leaves it
  as it is.  It gives a user (or nil) and an error, as in Go.
\<close>

record ('x, 'o) registry_env =
  GetUser :: "'o UserRegistry \<Rightarrow> string \<Rightarrow> string list \<Rightarrow> 'x \<Rightarrow> 'o option \<times> string option"
  InsertUser :: "'o UserRegistry \<Rightarrow> UserInfo \<Rightarrow> 'x \<Rightarrow> string option \<times> 'x"
  InsertGroup :: "'o UserRegistry \<Rightarrow> string \<Rightarrow> string \<Rightarrow> 'x \<Rightarrow> string option \<times> 'x"

type_synonym ('x, 'o) getHandler = "'o globals \<Rightarrow> 'x \<Rightarrow> 'o option \<times> string option"

record ('x, 'o) http_env =
  NewRegisterHandler :: "('x, 'o) getHandler"
  NewEnrollHandler :: "('x, 'o) getHandler"
  NewReenrollHandler :: "('x, 'o) getHandler"
  NewRevokeHandler :: "('x, 'o) getHandler"
  NewTCertHandler :: "('x, 'o) getHandler"
  NewAuthWrapper ::
    "string \<Rightarrow> 'o option \<Rightarrow> string option \<Rightarrow> string \<times> 'o option \<times> string option"
  http_NewServeMux :: 'o
  mux_Handle :: "'o \<Rightarrow> string \<Rightarrow> 'o option \<Rightarrow> string + 'o"

record ('x, 'o) net_env =
  tls_LoadX509KeyPair :: "string \<Rightarrow> string \<Rightarrow> 'x \<Rightarrow> string + 'o"
  tls_Listen :: "string \<Rightarrow> 'o \<Rightarrow> 'x \<Rightarrow> (string + 'o) \<times> 'x"
  net_Listen :: "string \<Rightarrow> 'x \<Rightarrow> (string + 'o) \<times> 'x"
  http_Serve :: "'o option \<Rightarrow> 'o option \<Rightarrow> 'x \<Rightarrow> string \<times> 'x"
  Listener_Close :: "'o \<Rightarrow> 'x \<Rightarrow> string option \<times> 'x"

record ('x, 'o) cli_env =
  cli_PopFirstArgument :: "string list \<Rightarrow> string + string \<times> string list"
  cli_ReadStdin :: "string \<Rightarrow> 'x \<Rightarrow> string + bytes"
  json_Unmarshal :: "bytes \<Rightarrow> 'o CertificateRequest \<Rightarrow> string + 'o CertificateRequest"

record ('x, 'o) env =
  OS :: "('x, 'o) os_env"
  Crypto :: "('x, 'o) crypto_env"
  Dbutil :: "('x, 'o) db_env"
  Reg :: "('x, 'o) registry_env"
  Http :: "('x, 'o) http_env"
  Net :: "('x, 'o) net_env"
  Cli :: "('x, 'o) cli_env"
  DefaultServerAddr :: string
  DefaultServerPort :: int
  zero_settings :: 'o

text \<open>
  The calls that reach the outside world are recorded, in order, in a trace: it is how
  a theorem says that a call did or did not happen, and in which order.  For a write and
  for a registry insertion the trace keeps the error the call returned (\<open>None\<close>: it
  succeeded).
\<close>

datatype 'o call =
    Call_InitFactories "'o option"
  | Call_initca_New "'o CertificateRequest"
  | Call_MkdirAll string FileMode "string option"
  | Call_WriteFile string bytes FileMode "string option"
  | Call_NewUserRegistry string string
  | Call_ldap_NewClient
  | Call_GetUser string
  | Call_InsertUser UserInfo "string option"
  | Call_InsertGroup string string "string option"
  | Call_NewSigner string string
  | Call_Handle string
  | Call_Listen string
  | Call_Serve
  | Call_Close

text \<open>
  The state a function of the server works on: the \<^verbatim>\<open>Server\<close> struct, the package's
  global variables, the outside world, the trace, and the messages handed to the logger
  at level Info and above (Debug messages print whole structs and are left out; whether a
  message is printed depends on \<open>log_Level\<close>).
\<close>

record ('x, 'o) sys =
  srv :: "'o Server"
  glob :: "'o globals"
  world :: 'x
  trace :: "'o call list"
  logs :: "(level \<times> string) list"

type_synonym ('x, 'o) step = "('x, 'o) sys \<Rightarrow> error option \<times> ('x, 'o) sys"

definition logf :: "level \<Rightarrow> string \<Rightarrow> ('x, 'o) sys \<Rightarrow> ('x, 'o) sys" where
  "logf l msg st = st\<lparr> logs := logs st @ [(l, msg)] \<rparr>"

definition called :: "'o call \<Rightarrow> 'x \<Rightarrow> ('x, 'o) sys \<Rightarrow> ('x, 'o) sys" where
  "called c x st = st\<lparr> world := x, trace := trace st @ [c] \<rparr>"

definition quoted :: "string \<Rightarrow> string" where
  "quoted s = [CHR 0x27] @ s @ [CHR 0x27]"

text \<open>\<^verbatim>\<open>err = f(); if err != nil { return err }\<close>, then the rest.\<close>

definition and_then ::
  "error option \<times> ('x, 'o) sys \<Rightarrow> ('x, 'o) step \<Rightarrow> error option \<times> ('x, 'o) sys" where
  "and_then r f = (case r of (Some e, st) \<Rightarrow> (Some e, st) | (None, st) \<Rightarrow> f st)"

text \<open>A returned error can be ignored by the caller; a panic or a fatal exit cannot.\<close>

definition aborted :: "error option \<Rightarrow> bool" where
  "aborted r = (case r of Some (Panic m) \<Rightarrow> True | Some (Fatal m) \<Rightarrow> True | _ \<Rightarrow> False)"

section \<open>Registry calls\<close>

definition addAffiliation :: "('x, 'o) env \<Rightarrow> string \<Rightarrow> string \<Rightarrow> ('x, 'o) step" where
  "addAffiliation E path parentPath st =
     (case registry (srv st) of
        None \<Rightarrow> (Some nil_dereference, st)
      | Some r \<Rightarrow>
          (let (err, x) = InsertGroup (Reg E) r path parentPath (world st)
           in (map_option Error err, called (Call_InsertGroup path parentPath err) x st)))"

definition convertAttrs :: "(string \<times> string) list \<Rightarrow> Attribute list" where
  "convertAttrs inAttrs =
     foldl (\<lambda>outAttrs (name, v). outAttrs @ [\<lparr> Attribute_Name = name, Attribute_Value = v \<rparr>])
       [] inAttrs"

definition addIdentity ::
  "('x, 'o) env \<Rightarrow> ServerConfigIdentity \<Rightarrow> bool \<Rightarrow> ('x, 'o) step" where
  "addIdentity E ident errIfFound st =
     (case registry (srv st) of
        None \<Rightarrow> (Some nil_dereference, st)
      | Some r \<Rightarrow>
          (let (user, _) = GetUser (Reg E) r (ID ident) [] (world st);
               st1 = called (Call_GetUser (ID ident)) (world st) st
           in if user \<noteq> None then
                (if errIfFound then
                   (Some (Error (''Identity '' @ quoted (ID ident) @ '' is already registered'')), st1)
                 else (None, st1))
              else
                (case getMaxEnrollments (srv st1) (MaxEnrollments ident) of
                   Inl e \<Rightarrow> (Some e, st1)
                 | Inr maxEnrollments \<Rightarrow>
                     (let rec = \<lparr> UserInfo_Name = ID ident, UserInfo_Pass = Pass ident,
                                  UserInfo_Type = Type ident, UserInfo_Group = Affiliation ident,
                                  UserInfo_Attributes = convertAttrs (Attributes ident),
                                  UserInfo_MaxEnrollments = maxEnrollments \<rparr>;
                          (err, x) = InsertUser (Reg E) r rec (world st1);
                          st2 = called (Call_InsertUser rec err) x st1
                      in case err of
                           Some msg \<Rightarrow>
                             (Some (Error (''Failed to insert user '' @ quoted (ID ident) @
                                           '': '' @ msg)), st2)
                         | None \<Rightarrow> (None, st2)))))"

section \<open>Loading the bootstrap tables\<close>

fun loadUsersTable_range ::
  "('x, 'o) env \<Rightarrow> ServerConfigIdentity list \<Rightarrow> ('x, 'o) step" where
  "loadUsersTable_range E [] st = (None, st)"
| "loadUsersTable_range E (ident # ids) st =
     and_then (addIdentity E ident False st) (loadUsersTable_range E ids)"

definition loadUsersTable :: "('x, 'o) env \<Rightarrow> ('x, 'o) step" where
  "loadUsersTable E st =
     (case Config (srv st) of
        None \<Rightarrow> (Some nil_dereference, st)
      | Some c \<Rightarrow> loadUsersTable_range E (Registry_Identities (Registry c)) st)"

text \<open>
  The recursive loader.  The three \<^verbatim>\<open>range\<close> loops are the three list functions; a
  loop stops at the first error.  The \<^verbatim>\<open>default\<close> branch asserts the type
  \<^verbatim>\<open>map[string]interface{}\<close> without a check, so a node of another type panics there.
\<close>

fun weight :: "node \<Rightarrow> nat" where
  "weight NilNode = 0"
| "weight (Str name) = 0"
| "weight (StrList names) = Suc (length names)"
| "weight (IfaceList eles) = Suc (sum_list (map (\<lambda>ele. Suc (weight ele)) eles))"
| "weight (MapNode entries) = Suc (sum_list (map (\<lambda>entry. Suc (Suc (weight (snd entry)))) entries))"
| "weight (Other t) = 0"

function (sequential)
    loadAffiliationsTableR :: "('x, 'o) env \<Rightarrow> node \<Rightarrow> string \<Rightarrow> ('x, 'o) step"
and range_strings :: "('x, 'o) env \<Rightarrow> string list \<Rightarrow> string \<Rightarrow> ('x, 'o) step"
and range_interfaces :: "('x, 'o) env \<Rightarrow> node list \<Rightarrow> string \<Rightarrow> ('x, 'o) step"
and range_map :: "('x, 'o) env \<Rightarrow> (string \<times> node) list \<Rightarrow> string \<Rightarrow> ('x, 'o) step"
where
  "loadAffiliationsTableR E NilNode parentPath st = (None, st)"
| "loadAffiliationsTableR E (Str name) parentPath st =
     addAffiliation E (affiliationPath name parentPath) parentPath st"
| "loadAffiliationsTableR E (StrList names) parentPath st =
     range_strings E names parentPath st"
| "loadAffiliationsTableR E (IfaceList eles) parentPath st =
     range_interfaces E eles parentPath st"
| "loadAffiliationsTableR E (MapNode entries) parentPath st =
     range_map E entries parentPath st"
| "loadAffiliationsTableR E (Other t) parentPath st =
     (Some (Panic (''interface conversion: interface {} is '' @ t @
                   '', not map[string]interface {}'')), st)"
| "range_strings E [] parentPath st = (None, st)"
| "range_strings E (ele # names) parentPath st =
     and_then (loadAffiliationsTableR E (Str ele) parentPath st)
       (range_strings E names parentPath)"
| "range_interfaces E [] parentPath st = (None, st)"
| "range_interfaces E (ele # eles) parentPath st =
     and_then (loadAffiliationsTableR E ele parentPath st)
       (range_interfaces E eles parentPath)"
| "range_map E [] parentPath st = (None, st)"
| "range_map E ((name, ele) # entries) parentPath st =
     (let path = affiliationPath name parentPath
      in and_then (addAffiliation E path parentPath st)
           (\<lambda>st1. and_then (loadAffiliationsTableR E ele path st1)
                     (range_map E entries parentPath)))"
  by pat_completeness auto
termination
  by (relation "measure (\<lambda>a. case a of
         Inl (Inl (E, val, p, st)) \<Rightarrow> weight val
       | Inl (Inr (E, names, p, st)) \<Rightarrow> length names
       | Inr (Inl (E, eles, p, st)) \<Rightarrow> sum_list (map (\<lambda>ele. Suc (weight ele)) eles)
       | Inr (Inr (E, entries, p, st)) \<Rightarrow>
           sum_list (map (\<lambda>entry. Suc (Suc (weight (snd entry)))) entries))")
     auto

definition loadAffiliationsTable :: "('x, 'o) env \<Rightarrow> ('x, 'o) step" where
  "loadAffiliationsTable E st =
     (case Config (srv st) of
        None \<Rightarrow> (Some nil_dereference, st)
      | Some c \<Rightarrow> loadAffiliationsTableR E (Affiliations c) '''' st)"

section \<open>Configuration defaults and file names\<close>

text \<open>\<^verbatim>\<open>new(ServerConfig)\<close>: every field has its zero value.\<close>

definition zero_ServerConfig :: "'o \<Rightarrow> 'o ServerConfig" where
  "zero_ServerConfig z =
     \<lparr> Debug = False, Address = '''', Port = 0,
       CA = \<lparr> CA_Keyfile = '''', CA_Certfile = '''' \<rparr>,
       CSR = \<lparr> CSR_CN = '''', CSR_Names = [], CSR_Hosts = [], CSR_CA = None,
               CSR_SerialNumber = '''' \<rparr>,
       CSP = None,
       DB = \<lparr> DB_Type = '''', DB_Datasource = '''', DB_TLS = z \<rparr>,
       LDAP = \<lparr> LDAP_Enabled = False, LDAP_Settings = z \<rparr>,
       Signing = None, Remote = '''',
       TLS = \<lparr> TLS_Enabled = False, TLS_CertFile = '''', TLS_KeyFile = '''' \<rparr>,
       Registry = \<lparr> Registry_MaxEnrollments = 0, Registry_Identities = [] \<rparr>,
       Affiliations = NilNode \<rparr>"

text \<open>The block "Set config defaults" of \<^verbatim>\<open>initConfig\<close>.\<close>

definition initConfig_defaults :: "('x, 'o) env \<Rightarrow> 'o ServerConfig \<Rightarrow> 'o ServerConfig" where
  "initConfig_defaults E c0 =
     (let c1 = (if Address c0 = '''' then c0\<lparr> Address := DefaultServerAddr E \<rparr> else c0);
          c2 = (if Port c1 = 0 then c1\<lparr> Port := DefaultServerPort E \<rparr> else c1);
          c3 = (if CA_Certfile (CA c2) = ''''
                then c2\<lparr> CA := (CA c2)\<lparr> CA_Certfile := ''ca-cert.pem'' \<rparr> \<rparr> else c2);
          c4 = (if CA_Keyfile (CA c3) = ''''
                then c3\<lparr> CA := (CA c3)\<lparr> CA_Keyfile := ''ca-key.pem'' \<rparr> \<rparr> else c3)
      in if CSR_CN (CSR c4) = ''''
         then c4\<lparr> CSR := (CSR c4)\<lparr> CSR_CN := ''fabric-ca-server'' \<rparr> \<rparr> else c4)"

definition initConfig :: "('x, 'o) env \<Rightarrow> ('x, 'o) step" where
  "initConfig E st =
     (let r = (if HomeDir (srv st) = '''' then os_Getwd (OS E) (world st)
               else (HomeDir (srv st), None));
          st1 = st\<lparr> srv := (srv st)\<lparr> HomeDir := fst r \<rparr> \<rparr>
      in case snd r of
           Some err \<Rightarrow>
             (Some (Error (''Failed to initialize server's home directory: '' @ err)), st1)
         | None \<Rightarrow>
             (let c5 = initConfig_defaults E
                         (case Config (srv st1) of
                            None \<Rightarrow> zero_ServerConfig (zero_settings E)
                          | Some c \<Rightarrow> c);
                  st2 = st1\<lparr> srv := (srv st1)\<lparr> Config := Some c5 \<rparr>,
                             glob := (if Debug c5 then (glob st1)\<lparr> log_Level := LevelDebug \<rparr>
                                      else glob st1) \<rparr>;
                  (ferr, x) = factory_InitFactories (Crypto E) (CSP c5) (world st2);
                  st3 = called (Call_InitFactories (CSP c5)) x st2
              in case ferr of
                   Some err \<Rightarrow>
                     (Some (Panic (''Could not initialize BCCSP Factories ['' @ err @ '']'')), st3)
                 | None \<Rightarrow> (None, st3)))"

text \<open>
  \<^verbatim>\<open>makeFileNamesAbsolute\<close> loops over pointers to four fields of the configuration; a
  pointer is modelled by the pair of functions that read and write the field.
\<close>

type_synonym 'o namePtr =
  "('o ServerConfig \<Rightarrow> string) \<times> (string \<Rightarrow> 'o ServerConfig \<Rightarrow> 'o ServerConfig)"

definition name_fields :: "'o namePtr list" where
  "name_fields =
     [ (\<lambda>c. CA_Certfile (CA c), \<lambda>v c. c\<lparr> CA := (CA c)\<lparr> CA_Certfile := v \<rparr> \<rparr>),
       (\<lambda>c. CA_Keyfile (CA c), \<lambda>v c. c\<lparr> CA := (CA c)\<lparr> CA_Keyfile := v \<rparr> \<rparr>),
       (\<lambda>c. TLS_CertFile (TLS c), \<lambda>v c. c\<lparr> TLS := (TLS c)\<lparr> TLS_CertFile := v \<rparr> \<rparr>),
       (\<lambda>c. TLS_KeyFile (TLS c), \<lambda>v c. c\<lparr> TLS := (TLS c)\<lparr> TLS_KeyFile := v \<rparr> \<rparr>) ]"

fun makeFileNamesAbsolute_range ::
  "('x, 'o) env \<Rightarrow> string \<Rightarrow> 'x \<Rightarrow> 'o namePtr list \<Rightarrow> 'o ServerConfig
     \<Rightarrow> string option \<times> 'o ServerConfig" where
  "makeFileNamesAbsolute_range E home x [] c = (None, c)"
| "makeFileNamesAbsolute_range E home x (namePtr # ptrs) c =
     (case util_MakeFileAbs (OS E) (fst namePtr c) home x of
        Inl err \<Rightarrow> (Some err, c)
      | Inr absolute \<Rightarrow> makeFileNamesAbsolute_range E home x ptrs (snd namePtr absolute c))"

definition makeFileNamesAbsolute :: "('x, 'o) env \<Rightarrow> ('x, 'o) step" where
  "makeFileNamesAbsolute E st =
     (case Config (srv st) of
        None \<Rightarrow> (Some nil_dereference, st)
      | Some c \<Rightarrow>
          (let r = makeFileNamesAbsolute_range E (HomeDir (srv st)) (world st) name_fields c
           in (map_option Error (fst r), st\<lparr> srv := (srv st)\<lparr> Config := Some (snd r) \<rparr> \<rparr>)))"

section \<open>Key material\<close>

text \<open>File modes are written in octal in the source: \<open>perm 6 0 0\<close> is \<^verbatim>\<open>0600\<close>.\<close>

definition perm :: "nat \<Rightarrow> nat \<Rightarrow> nat \<Rightarrow> FileMode" where
  "perm u g other = of_nat (u * 64 + g * 8 + other)"

definition writeFile ::
  "('x, 'o) env \<Rightarrow> string \<Rightarrow> bytes \<Rightarrow> FileMode \<Rightarrow> ('x, 'o) sys
     \<Rightarrow> string option \<times> ('x, 'o) sys" where
  "writeFile E file buf mode st =
     (let (err, x) = os_MkdirAll (OS E) (filepath_Dir (OS E) file) mode (world st);
          st1 = called (Call_MkdirAll (filepath_Dir (OS E) file) mode err) x st
      in case err of
           Some msg \<Rightarrow> (Some msg, st1)
         | None \<Rightarrow>
             (let (werr, x1) = ioutil_WriteFile (OS E) file buf mode (world st1)
              in (werr, called (Call_WriteFile file buf mode werr) x1 st1)))"

definition initKeyMaterial :: "('x, 'o) env \<Rightarrow> bool \<Rightarrow> ('x, 'o) step" where
  "initKeyMaterial E renew st0 =
     (let (aerr, st) = makeFileNamesAbsolute E st0
      in if aborted aerr then (aerr, st)
         else
           (case Config (srv st) of
              None \<Rightarrow> (Some nil_dereference, st)
            | Some c \<Rightarrow>
                (let keyFile = CA_Keyfile (CA c); certFile = CA_Certfile (CA c)
                 in if \<not> renew \<and> util_FileExists (OS E) keyFile (world st)
                          \<and> util_FileExists (OS E) certFile (world st)
                    then
                      (None,
                       logf LevelInfo (''Certificate file location: '' @ certFile)
                        (logf LevelInfo (''Key file location: '' @ keyFile)
                          (logf LevelInfo ''The CA key and certificate files already exist'' st)))
                    else
                      (let ptr = CSR c;
                           req = \<lparr> Req_CN = CSR_CN ptr, Req_Names = CSR_Names ptr,
                                   Req_Hosts = CSR_Hosts ptr, Req_KeyRequest = NewBasicKeyRequest,
                                   Req_CA = CSR_CA ptr, Req_SerialNumber = CSR_SerialNumber ptr \<rparr>;
                           (r, x) = initca_New (Crypto E) req (world st);
                           st1 = called (Call_initca_New req) x st
                       in case r of
                            Inl err \<Rightarrow>
                              (Some (Error (''Failed to initialize CA ['' @ err @
                                            '']\<newline>Request was '' @ fmt_Request (Crypto E) req)),
                               st1)
                          | Inr (cert, _, key) \<Rightarrow>
                              (case writeFile E keyFile key (perm 6 0 0) st1 of
                                 (Some err, st2) \<Rightarrow>
                                   (Some (Error (''Failed to store key: '' @ err)), st2)
                               | (None, st2) \<Rightarrow>
                                   (case writeFile E certFile cert (perm 6 4 4) st2 of
                                      (Some err, st3) \<Rightarrow>
                                        (Some (Error (''Failed to store certificate: '' @ err)), st3)
                                    | (None, st3) \<Rightarrow>
                                        (None,
                                         logf LevelInfo (''Certificate file location: '' @ certFile)
                                          (logf LevelInfo (''Key file location: '' @ keyFile)
                                            (logf LevelInfo
                                              ''The CA key and certificate files were generated''
                                              st3)))))))))"

section \<open>The database and the user registry\<close>

definition initUserRegistry :: "('x, 'o) env \<Rightarrow> ('x, 'o) step" where
  "initUserRegistry E st =
     (case Config (srv st) of
        None \<Rightarrow> (Some nil_dereference, st)
      | Some c \<Rightarrow>
          (if LDAP_Enabled (LDAP c) then
             (let (r, x) = ldap_NewClient (Dbutil E) (LDAP c) (world st);
                  reg = map_option LDAPClient (fst r);
                  st1 = called Call_ldap_NewClient x st
              in (map_option Error (snd r),
                  st1\<lparr> srv := (srv st1)\<lparr> registry := reg \<rparr>,
                       glob := (glob st1)\<lparr> UserRegistry := reg \<rparr> \<rparr>))
           else
             (let reg = Some (DBAccessor (db (srv st)))
              in (None,
                  st\<lparr> srv := (srv st)\<lparr> registry := reg \<rparr>,
                      glob := (glob st)\<lparr> UserRegistry := reg \<rparr> \<rparr>))))"

text \<open>
  \<^verbatim>\<open>initDB\<close> in two parts: \<open>initDB_open\<close> sets the defaults and opens the database in
  the \<^verbatim>\<open>switch\<close> (\<open>initDB_switch\<close>), which gives \<^verbatim>\<open>exists\<close>; \<open>initDB_bootstrap\<close> is
  what follows the \<^verbatim>\<open>switch\<close>.
\<close>

definition opened ::
  "string \<Rightarrow> string \<Rightarrow> ('o option \<times> bool \<times> string option) \<times> 'x \<Rightarrow> ('x, 'o) sys
     \<Rightarrow> (error + bool) \<times> ('x, 'o) sys" where
  "opened ty ds r st =
     (let st1 = called (Call_NewUserRegistry ty ds) (snd r) st;
          st2 = st1\<lparr> srv := (srv st1)\<lparr> db := fst (fst r) \<rparr> \<rparr>
      in case snd (snd (fst r)) of
           Some err \<Rightarrow> (Inl (Error err), st2)
         | None \<Rightarrow> (Inr (fst (snd (fst r))), st2))"

definition initDB_switch ::
  "('x, 'o) env \<Rightarrow> 'o DBConfig \<Rightarrow> ('x, 'o) sys \<Rightarrow> (error + bool) \<times> ('x, 'o) sys" where
  "initDB_switch E d st =
     (if DB_Type d = ''sqlite3'' then
        opened (DB_Type d) (DB_Datasource d)
          (dbutil_NewUserRegistrySQLLite3 (Dbutil E) (DB_Datasource d) (world st)) st
      else if DB_Type d = ''postgres'' then
        opened (DB_Type d) (DB_Datasource d)
          (dbutil_NewUserRegistryPostgres (Dbutil E) (DB_Datasource d) (DB_TLS d) (world st)) st
      else if DB_Type d = ''mysql'' then
        opened (DB_Type d) (DB_Datasource d)
          (dbutil_NewUserRegistryMySQL (Dbutil E) (DB_Datasource d) (DB_TLS d) (world st)) st
      else
        (Inl (Error (''Invalid db.type in config file: '' @ quoted (DB_Type d) @
                     ''; must be '' @ quoted ''sqlite3'' @ '', '' @ quoted ''postgres'' @
                     '', or '' @ quoted ''mysql'')), st))"

definition initDB_bootstrap :: "('x, 'o) env \<Rightarrow> 'o DBConfig \<Rightarrow> bool \<Rightarrow> ('x, 'o) step" where
  "initDB_bootstrap E d exists st =
     (let acc = NewCertDBAccessor (Dbutil E) (db (srv st));
          st1 = st\<lparr> srv := (srv st)\<lparr> certDBAccessor := Some acc \<rparr>,
                    glob := (glob st)\<lparr> MyCertDBAccessor := Some acc \<rparr> \<rparr>
      in and_then (initUserRegistry E st1)
           (\<lambda>st2. and_then
                     (if \<not> exists then
                        and_then (loadUsersTable E st2) (loadAffiliationsTable E)
                      else (None, st2))
                     (\<lambda>st3. (None,
                        logf LevelInfo (''Initialized '' @ DB_Type d @ '' data base at '' @
                                        DB_Datasource d) st3))))"

definition initDB_open ::
  "('x, 'o) env \<Rightarrow> ('x, 'o) sys \<Rightarrow> (error + bool \<times> 'o DBConfig) \<times> ('x, 'o) sys" where
  "initDB_open E st =
     (case Config (srv st) of
        None \<Rightarrow> (Inl nil_dereference, st)
      | Some c \<Rightarrow>
          (let d0 = DB c;
               d1 = (if DB_Type d0 = '''' then d0\<lparr> DB_Type := ''sqlite3'' \<rparr> else d0);
               r = (if DB_Datasource d1 = '''' then
                      (case util_MakeFileAbs (OS E) ''fabric-ca-server.db'' (HomeDir (srv st))
                              (world st) of
                         Inl err \<Rightarrow> (Some err, d1)
                       | Inr ds \<Rightarrow> (None, d1\<lparr> DB_Datasource := ds \<rparr>))
                    else (None, d1));
               d2 = snd r;
               st1 = st\<lparr> srv := (srv st)\<lparr> Config := Some (c\<lparr> DB := d2 \<rparr>) \<rparr> \<rparr>
           in case fst r of
                Some err \<Rightarrow> (Inl (Error err), st1)
              | None \<Rightarrow>
                  (case initDB_switch E d2 st1 of
                     (Inl e, st2) \<Rightarrow> (Inl e, st2)
                   | (Inr exists, st2) \<Rightarrow> (Inr (exists, d2), st2))))"

definition initDB :: "('x, 'o) env \<Rightarrow> ('x, 'o) step" where
  "initDB E st =
     (case initDB_open E st of
        (Inl e, st2) \<Rightarrow> (Some e, st2)
      | (Inr (exists, d), st2) \<Rightarrow> initDB_bootstrap E d exists st2)"

section \<open>The enrollment signer\<close>

text \<open>
  The policy is the configuration's own when it has one (the same object:
  \<^verbatim>\<open>OverrideRemotes\<close> then changes the configuration's policy), else a default one.
\<close>

definition initEnrollmentSigner_sign ::
  "('x, 'o) env \<Rightarrow> 'o ServerConfig \<Rightarrow> 'o \<Rightarrow> ('x, 'o) step" where
  "initEnrollmentSigner_sign E c policy st =
     (let (r, x) = universal_NewSigner (Crypto E) (CA_Certfile (CA c)) (CA_Keyfile (CA c))
                     (Remote c \<noteq> '''') policy (world st);
          st1 = called (Call_NewSigner (CA_Certfile (CA c)) (CA_Keyfile (CA c))) x st;
          st2 = st1\<lparr> srv := (srv st1)\<lparr> enrollSigner := fst r \<rparr>,
                     glob := (glob st1)\<lparr> EnrollSigner := fst r \<rparr> \<rparr>
      in case snd r of
           Some err \<Rightarrow> (Some (Error err), st2)
         | None \<Rightarrow>
             (case fst r of
                None \<Rightarrow> (Some nil_dereference, st2)
              | Some sg \<Rightarrow>
                  (let sg1 = SetDBAccessor (Crypto E) sg (certDBAccessor (srv st2))
                   in (None,
                       st2\<lparr> srv := (srv st2)\<lparr> enrollSigner := Some sg1 \<rparr>,
                            glob := (glob st2)\<lparr> EnrollSigner := Some sg1 \<rparr> \<rparr>))))"

definition initEnrollmentSigner :: "('x, 'o) env \<Rightarrow> ('x, 'o) step" where
  "initEnrollmentSigner E st =
     (case Config (srv st) of
        None \<Rightarrow> (Some nil_dereference, st)
      | Some c \<Rightarrow>
          (let policy = (case Signing c of
                           Some p \<Rightarrow> p
                         | None \<Rightarrow> config_DefaultPolicy (Crypto E))
           in if Remote c \<noteq> '''' then
                (let (err, policy1) = OverrideRemotes (Crypto E) policy (Remote c);
                     c1 = (case Signing c of
                             Some p \<Rightarrow> c\<lparr> Signing := Some policy1 \<rparr>
                           | None \<Rightarrow> c);
                     st1 = st\<lparr> srv := (srv st)\<lparr> Config := Some c1 \<rparr> \<rparr>
                 in case err of
                      Some msg \<Rightarrow>
                        (Some (Error (''Failed initializing enrollment signer: '' @ msg)), st1)
                    | None \<Rightarrow> initEnrollmentSigner_sign E c1 policy1 st1)
              else initEnrollmentSigner_sign E c policy st))"

section \<open>Initialisation\<close>

definition Init :: "('x, 'o) env \<Rightarrow> bool \<Rightarrow> ('x, 'o) step" where
  "Init E renew st =
     and_then (initConfig E st)
       (\<lambda>st1. and_then
          (initKeyMaterial E renew
             (st1\<lparr> glob := (glob st1)\<lparr> MyCSP := factory_GetDefault (Crypto E) (world st1) \<rparr> \<rparr>))
          (\<lambda>st2. and_then (initDB E st2) (initEnrollmentSigner E)))"

section \<open>Endpoint handlers\<close>

definition registerHandler ::
  "('x, 'o) env \<Rightarrow> string \<Rightarrow> ('x, 'o) getHandler \<Rightarrow> ('x, 'o) step" where
  "registerHandler E path getHandler st =
     (let (handler, err) = getHandler (glob st) (world st)
      in case err of
           Some msg \<Rightarrow>
             (Some (Error (''Endpoint '' @ quoted path @ '' is disabled: '' @ msg)), st)
         | None \<Rightarrow>
             (let (path1, handler1, err1) = NewAuthWrapper (Http E) path handler err
              in case err1 of
                   Some msg \<Rightarrow>
                     (Some (Error (''Endpoint '' @ quoted path1 @ '' has been disabled: '' @ msg)),
                      st)
                 | None \<Rightarrow>
                     (case mux (srv st) of
                        None \<Rightarrow> (Some nil_dereference, st)
                      | Some m \<Rightarrow>
                          (case mux_Handle (Http E) m path1 handler1 of
                             Inl p \<Rightarrow> (Some (Panic p), called (Call_Handle path1) (world st) st)
                           | Inr m1 \<Rightarrow>
                               (None,
                                (called (Call_Handle path1) (world st) st)
                                  \<lparr> srv := (srv st)\<lparr> mux := Some m1 \<rparr> \<rparr>)))))"

text \<open>
  \<^verbatim>\<open>registerHandlerLog\<close> returns nothing: an error of \<^verbatim>\<open>registerHandler\<close> ends in the
  log.  Only a panic (of \<^verbatim>\<open>mux.Handle\<close>, or a nil mux) leaves it another way.
\<close>

definition registerHandlerLog ::
  "('x, 'o) env \<Rightarrow> string \<Rightarrow> ('x, 'o) getHandler \<Rightarrow> ('x, 'o) step" where
  "registerHandlerLog E path getHandler st =
     (case registerHandler E path getHandler st of
        (Some (Error msg), st1) \<Rightarrow>
          (None, logf LevelWarning (''Endpoint '' @ quoted path @ '' is disabled: '' @ msg) st1)
      | (Some abort, st1) \<Rightarrow> (Some abort, st1)
      | (None, st1) \<Rightarrow>
          (None, logf LevelInfo (''Endpoint '' @ quoted path @ '' is enabled'') st1))"

definition registerHandlers :: "('x, 'o) env \<Rightarrow> ('x, 'o) step" where
  "registerHandlers E st =
     and_then (registerHandlerLog E ''register'' (NewRegisterHandler (Http E))
                 (st\<lparr> srv := (srv st)\<lparr> mux := Some (http_NewServeMux (Http E)) \<rparr> \<rparr>))
       (\<lambda>st1. and_then (registerHandlerLog E ''enroll'' (NewEnrollHandler (Http E)) st1)
       (\<lambda>st2. and_then (registerHandlerLog E ''reenroll'' (NewReenrollHandler (Http E)) st2)
       (\<lambda>st3. and_then (registerHandlerLog E ''revoke'' (NewRevokeHandler (Http E)) st3)
       (\<lambda>st4. registerHandlerLog E ''tcert'' (NewTCertHandler (Http E)) st4))))"

section \<open>Listening and serving\<close>

definition JoinHostPort :: "string \<Rightarrow> string \<Rightarrow> string" where
  "JoinHostPort host port =
     (if CHR '':'' \<in> set host \<or> CHR ''%'' \<in> set host then ''['' @ host @ '']:'' @ port
      else host @ '':'' @ port)"

text \<open>
  \<^verbatim>\<open>http.Serve\<close> returns only when serving ends, and then always with an error; the
  model of \<^verbatim>\<open>serve\<close> starts at that moment.
\<close>

definition serve :: "('x, 'o) env \<Rightarrow> ('x, 'o) step" where
  "serve E st =
     (let (err, x) = http_Serve (Net E) (listener (srv st)) (mux (srv st)) (world st);
          st1 = called Call_Serve x st;
          st2 = logf LevelError (''Server has stopped serving: '' @ err)
                  (st1\<lparr> srv := (srv st1)\<lparr> serveError := Some err \<rparr> \<rparr>);
          st3 = (case listener (srv st2) of
                   None \<Rightarrow> st2
                 | Some l \<Rightarrow>
                     (let st4 = called Call_Close (snd (Listener_Close (Net E) l (world st2))) st2
                      in st4\<lparr> srv := (srv st4)\<lparr> listener := None \<rparr> \<rparr>))
      in (Some (Error err), st3))"

text \<open>
  In the non-blocking mode \<^verbatim>\<open>serve\<close> runs in a goroutine of its own, which the model
  leaves out: \<^verbatim>\<open>listenAndServe\<close> returns \<^verbatim>\<open>nil\<close> at once.
\<close>

definition listenAndServe_serve :: "('x, 'o) env \<Rightarrow> 'o \<Rightarrow> ('x, 'o) step" where
  "listenAndServe_serve E l st =
     (let st1 = st\<lparr> srv := (srv st)\<lparr> listener := Some l \<rparr> \<rparr>
      in if BlockingStart (srv st1) then serve E st1 else (None, st1))"

definition listenAndServe :: "('x, 'o) env \<Rightarrow> ('x, 'o) step" where
  "listenAndServe E st =
     (case Config (srv st) of
        None \<Rightarrow> (Some nil_dereference, st)
      | Some c0 \<Rightarrow>
          (let c1 = (if Address c0 = '''' then c0\<lparr> Address := DefaultServerAddr E \<rparr> else c0);
               c = (if Port c1 = 0 then c1\<lparr> Port := DefaultServerPort E \<rparr> else c1);
               st1 = st\<lparr> srv := (srv st)\<lparr> Config := Some c \<rparr> \<rparr>;
               addr = JoinHostPort (Address c) (Itoa (Port c))
           in if TLS_Enabled (TLS c) then
                (case tls_LoadX509KeyPair (Net E) (TLS_CertFile (TLS c)) (TLS_KeyFile (TLS c))
                        (world st1) of
                   Inl err \<Rightarrow> (Some (Error err), st1)
                 | Inr cer \<Rightarrow>
                     (let (r, x) = tls_Listen (Net E) addr cer (world st1);
                          st2 = called (Call_Listen addr) x st1
                      in case r of
                           Inl err \<Rightarrow> (Some (Error (''TLS listen failed: '' @ err)), st2)
                         | Inr l \<Rightarrow>
                             listenAndServe_serve E l
                               (logf LevelInfo (''Listening at https://'' @ addr) st2)))
              else
                (let (r, x) = net_Listen (Net E) addr (world st1);
                     st2 = called (Call_Listen addr) x st1
                 in case r of
                      Inl err \<Rightarrow> (Some (Error (''TCP listen failed: '' @ err)), st2)
                    | Inr l \<Rightarrow>
                        listenAndServe_serve E l
                          (logf LevelInfo (''Listening at http://'' @ addr) st2))))"

definition Start :: "('x, 'o) env \<Rightarrow> ('x, 'o) step" where
  "Start E st0 =
     (let st = st0\<lparr> srv := (srv st0)\<lparr> serveError := None \<rparr> \<rparr>
      in if listener (srv st) \<noteq> None then (Some (Error ''server is already started''), st)
         else
           and_then (Init E False st)
             (\<lambda>st1. case Config (srv st1) of
                       None \<Rightarrow> (Some nil_dereference, st1)
                     | Some c \<Rightarrow>
                         and_then
                           (registerHandlers E
                              (st1\<lparr> glob := (glob st1)\<lparr> CAKeyFile := CA_Keyfile (CA c),
                                                          CACertFile := CA_Certfile (CA c) \<rparr> \<rparr>))
                           (listenAndServe E)))"

section \<open>The command that creates the key and the certificate\<close>

text \<open>
  \<^verbatim>\<open>initMain\<close> (the \<^verbatim>\<open>init\<close> command of the server's command line).  Its argument
  \<^verbatim>\<open>c\<close> is a copy that only has a field set and is dropped, so the model leaves it out;
  \<^verbatim>\<open>log.Fatal\<close> ends the process.
\<close>

definition initMain :: "('x, 'o) env \<Rightarrow> string list \<Rightarrow> ('x, 'o) step" where
  "initMain E args st =
     (case cli_PopFirstArgument (Cli E) args of
        Inl err \<Rightarrow> (Some (Error err), st)
      | Inr (csrFile, _) \<Rightarrow>
          (case cli_ReadStdin (Cli E) csrFile (world st) of
             Inl err \<Rightarrow> (Some (Error err), st)
           | Inr csrFileBytes \<Rightarrow>
               (case json_Unmarshal (Cli E) csrFileBytes
                       \<lparr> Req_CN = '''', Req_Names = [], Req_Hosts = [],
                         Req_KeyRequest = NewBasicKeyRequest, Req_CA = None,
                         Req_SerialNumber = '''' \<rparr> of
                  Inl err \<Rightarrow> (Some (Error err), st)
                | Inr req \<Rightarrow>
                    (let (r, x) = initca_New (Crypto E) req (world st);
                         st1 = called (Call_initca_New req) x st
                     in case r of
                          Inl err \<Rightarrow> (Some (Error err), st1)
                        | Inr (cert, _, key) \<Rightarrow>
                            (let FCAHome = filepath_Dir (OS E)
                                   (util_GetDefaultConfigFile (OS E) ''fabric-ca-server'' (world st1));
                                 certFile = path_Join (OS E) FCAHome ''server-cert.pem'';
                                 (certerr, x1) =
                                    ioutil_WriteFile (OS E) certFile cert (perm 7 5 5) (world st1);
                                 st2 = called (Call_WriteFile certFile cert (perm 7 5 5) certerr) x1 st1
                             in if certerr \<noteq> None then
                                  (Some (Fatal
                                     ''Error writing server-cert.pem to fabric-ca home directory''),
                                   st2)
                                else
                                  (let keyFile = path_Join (OS E) FCAHome ''server-key.pem'';
                                       (keyerr, x2) =
                                          ioutil_WriteFile (OS E) keyFile key (perm 7 5 5) (world st2);
                                       st3 = called (Call_WriteFile keyFile key (perm 7 5 5) keyerr)
                                               x2 st2
                                   in if keyerr \<noteq> None then
                                        (Some (Fatal
                                           ''Error writing server-key.pem to fabric-ca home directory''),
                                         st3)
                                      else (None, st3)))))))"

section \<open>Properties of traces and of file modes\<close>

text \<open>
  A mode is owner-only when it grants nothing to the group and to others: no bit of
  \<^verbatim>\<open>0077\<close> is set.
\<close>

definition owner_only :: "FileMode \<Rightarrow> bool" where
  "owner_only m = (m AND perm 0 7 7 = 0)"

text \<open>The modes with which a trace writes a given file.\<close>

fun write_modes :: "string \<Rightarrow> 'o call list \<Rightarrow> FileMode list" where
  "write_modes file [] = []"
| "write_modes file (Call_WriteFile f buf m err # cs) =
     (if f = file then m # write_modes file cs else write_modes file cs)"
| "write_modes file (c # cs) = write_modes file cs"

text \<open>
  \<open>parents_first known cs\<close>: every \<^verbatim>\<open>InsertGroup\<close> call of the trace \<open>cs\<close> names a
  parent path that is in \<open>known\<close> or that an earlier call of \<open>cs\<close> has inserted with
  success.  \<open>inserted cs\<close> are the paths that \<open>cs\<close> inserts with success.
\<close>

fun inserted :: "'o call list \<Rightarrow> string list" where
  "inserted [] = []"
| "inserted (Call_InsertGroup path parent err # cs) =
     (if err = None then path # inserted cs else inserted cs)"
| "inserted (c # cs) = inserted cs"

fun parents_first :: "string list \<Rightarrow> 'o call list \<Rightarrow> bool" where
  "parents_first known [] = True"
| "parents_first known (Call_InsertGroup path parent err # cs) =
     (parent \<in> set known \<and> parents_first (if err = None then path # known else known) cs)"
| "parents_first known (c # cs) = parents_first known cs"

fun only_InsertGroup :: "'o call list \<Rightarrow> bool" where
  "only_InsertGroup [] = True"
| "only_InsertGroup (Call_InsertGroup path parent err # cs) = only_InsertGroup cs"
| "only_InsertGroup (c # cs) = False"

text \<open>
  The insertions of a tree in the order the specification describes, each as the pair of
  the inserted path and its parent path: depth first, the entries of a node from first to
  last, a node before its children, the children under the node's own path, and the
  nodes of the root level under the path \<open>p\<close> that the loader is started with.
  \<open>top_level\<close> are the names of the root level.
\<close>

fun insertion_order :: "node \<Rightarrow> string \<Rightarrow> (string \<times> string) list" where
  "insertion_order NilNode p = []"
| "insertion_order (Str name) p = [(affiliationPath name p, p)]"
| "insertion_order (StrList names) p = map (\<lambda>name. (affiliationPath name p, p)) names"
| "insertion_order (IfaceList eles) p = concat (map (\<lambda>ele. insertion_order ele p) eles)"
| "insertion_order (MapNode entries) p =
     concat (map (\<lambda>entry. (affiliationPath (fst entry) p, p)
                            # insertion_order (snd entry) (affiliationPath (fst entry) p))
               entries)"
| "insertion_order (Other t) p = []"

fun top_level :: "node \<Rightarrow> string list" where
  "top_level NilNode = []"
| "top_level (Str name) = [name]"
| "top_level (StrList names) = names"
| "top_level (IfaceList eles) = concat (map top_level eles)"
| "top_level (MapNode entries) = map fst entries"
| "top_level (Other t) = []"

text \<open>
  \<open>follows pre r new\<close>: the calls \<open>new\<close> of a run with the result \<open>r\<close> are the insertions
  \<open>pre\<close>, in that order and each with success, as far as the run went.  A run that
  returns \<^verbatim>\<open>nil\<close> has made them all; a run that returns an error has made the first \<open>k\<close>
  of them and then the next one, which failed with that error; a run that panics has
  made the first \<open>k\<close> of them.
\<close>

definition inserts :: "string \<times> string \<Rightarrow> 'o call" where
  "inserts a = Call_InsertGroup (fst a) (snd a) None"

definition follows :: "(string \<times> string) list \<Rightarrow> error option \<Rightarrow> 'o call list \<Rightarrow> bool" where
  "follows pre r new =
     (case r of
        None \<Rightarrow> new = map inserts pre
      | Some (Error msg) \<Rightarrow>
          (\<exists>k \<in> {..<length pre}.
             new = map inserts (take k pre)
                   @ [Call_InsertGroup (fst (pre ! k)) (snd (pre ! k)) (Some msg)])
      | Some e \<Rightarrow> (\<exists>k \<in> {..length pre}. new = map inserts (take k pre)))"

text \<open>
  A tree is supported when every node of it has one of the five shapes that the loader
  handles.
\<close>

fun supported :: "node \<Rightarrow> bool" where
  "supported NilNode = True"
| "supported (Str name) = True"
| "supported (StrList names) = True"
| "supported (IfaceList eles) = list_all supported eles"
| "supported (MapNode entries) = list_all (\<lambda>entry. supported (snd entry)) entries"
| "supported (Other t) = False"

text \<open>The calls of a trace that go to the user registry.\<close>

fun is_registry_call :: "'o call \<Rightarrow> bool" where
  "is_registry_call (Call_GetUser i) = True"
| "is_registry_call (Call_InsertUser rec err) = True"
| "is_registry_call (Call_InsertGroup path parent err) = True"
| "is_registry_call c = False"

text \<open>
  The calls that open a database, connect to LDAP or go to the registry; and what it
  means that a run from \<open>st\<close> to \<open>st'\<close> has initialised neither the registry nor the
  certificate store: the server's handles are the same and no such call was made.
\<close>

fun is_backend_call :: "'o call \<Rightarrow> bool" where
  "is_backend_call (Call_NewUserRegistry ty ds) = True"
| "is_backend_call Call_ldap_NewClient = True"
| "is_backend_call c = is_registry_call c"

definition backend_untouched :: "('x, 'o) sys \<Rightarrow> ('x, 'o) sys \<Rightarrow> bool" where
  "backend_untouched st st' =
     (db (srv st') = db (srv st) \<and> certDBAccessor (srv st') = certDBAccessor (srv st) \<and>
      registry (srv st') = registry (srv st) \<and>
      filter is_backend_call (trace st') = filter is_backend_call (trace st))"

section \<open>Example inputs\<close>

text \<open>
  Concrete inputs, on which the theorems below are applied: a configuration, a server and
  an outside world with simple lists for the files, the registry and the databases.
\<close>

definition example_config :: "nat ServerConfig" where
  "example_config =
     \<lparr> Debug = False, Address = ''0.0.0.0'', Port = 7054,
       CA = \<lparr> CA_Keyfile = ''/ca/ca-key.pem'', CA_Certfile = ''/ca/ca-cert.pem'' \<rparr>,
       CSR = \<lparr> CSR_CN = ''fabric-ca-server'', CSR_Names = [], CSR_Hosts = [],
               CSR_CA = None, CSR_SerialNumber = '''' \<rparr>,
       CSP = None,
       DB = \<lparr> DB_Type = ''sqlite3'', DB_Datasource = ''/ca/fabric-ca-server.db'', DB_TLS = 0 \<rparr>,
       LDAP = \<lparr> LDAP_Enabled = False, LDAP_Settings = 0 \<rparr>,
       Signing = None, Remote = '''',
       TLS = \<lparr> TLS_Enabled = False, TLS_CertFile = '''', TLS_KeyFile = '''' \<rparr>,
       Registry = \<lparr> Registry_MaxEnrollments = 5, Registry_Identities = [] \<rparr>,
       Affiliations = NilNode \<rparr>"

definition example_server :: "nat ServerConfig \<Rightarrow> nat Server" where
  "example_server c =
     \<lparr> HomeDir = ''/ca'', BlockingStart = False, Config = Some c, db = None, csp = None,
       certDBAccessor = None, registry = None, enrollSigner = None, mux = None,
       listener = None, serveError = None \<rparr>"

definition with_registry_max :: "int \<Rightarrow> 'o ServerConfig \<Rightarrow> 'o ServerConfig" where
  "with_registry_max m c = c\<lparr> Registry := (Registry c)\<lparr> Registry_MaxEnrollments := m \<rparr> \<rparr>"

text \<open>
  A small outside world for the examples: files with their contents and modes, the
  affiliations and the users of the registry, and the data sources that exist.  Its
  registry refuses an affiliation whose parent it does not have.
\<close>

record example_world =
  w_files :: "(string \<times> bytes \<times> FileMode) list"
  w_groups :: "(string \<times> string) list"
  w_users :: "UserInfo list"
  w_dbs :: "string list"

definition example_os :: "(example_world, nat) os_env" where
  "example_os =
     \<lparr> os_Getwd = (\<lambda>x. (''/ca'', None)),
       util_MakeFileAbs = (\<lambda>file dir x.
          Inr (case file of [] \<Rightarrow> []
               | c # cs \<Rightarrow> if c = CHR ''/'' then file else dir @ ''/'' @ file)),
       util_FileExists = (\<lambda>file x. map_of (w_files x) file \<noteq> None),
       util_GetDefaultConfigFile = (\<lambda>name x. ''/etc/fabric-ca/'' @ name @ ''-config.yaml''),
       filepath_Dir = (\<lambda>p. rev (tl (dropWhile (\<lambda>c. c \<noteq> CHR ''/'') (rev p)))),
       path_Join = (\<lambda>a b. a @ ''/'' @ b),
       os_MkdirAll = (\<lambda>dir m x. (None, x)),
       ioutil_WriteFile = (\<lambda>file buf m x. (None, x\<lparr> w_files := (file, buf, m) # w_files x \<rparr>)) \<rparr>"

definition example_crypto :: "(example_world, nat) crypto_env" where
  "example_crypto =
     \<lparr> factory_InitFactories = (\<lambda>opts x. (None, x)),
       factory_GetDefault = (\<lambda>x. Some 1),
       initca_New = (\<lambda>req x. (Inr ([1, 2, 3], [4, 5], [6, 7, 8]), x)),
       fmt_Request = (\<lambda>req. Req_CN req),
       config_DefaultPolicy = 2,
       OverrideRemotes = (\<lambda>p r. (None, p)),
       universal_NewSigner = (\<lambda>cert key force p x. ((Some 3, None), x)),
       SetDBAccessor = (\<lambda>sg acc. sg) \<rparr>"

definition example_db :: "(example_world, nat) db_env" where
  "example_db =
     \<lparr> dbutil_NewUserRegistrySQLLite3 = (\<lambda>ds x.
          ((Some 4, ds \<in> set (w_dbs x), None), x\<lparr> w_dbs := ds # w_dbs x \<rparr>)),
       dbutil_NewUserRegistryPostgres = (\<lambda>ds tls x.
          ((Some 4, ds \<in> set (w_dbs x), None), x\<lparr> w_dbs := ds # w_dbs x \<rparr>)),
       dbutil_NewUserRegistryMySQL = (\<lambda>ds tls x.
          ((Some 4, ds \<in> set (w_dbs x), None), x\<lparr> w_dbs := ds # w_dbs x \<rparr>)),
       NewCertDBAccessor = (\<lambda>d. 5),
       ldap_NewClient = (\<lambda>cfg x. ((None, Some ''LDAP is not available''), x)) \<rparr>"

definition example_registry :: "(example_world, nat) registry_env" where
  "example_registry =
     \<lparr> GetUser = (\<lambda>r i attrs x.
          if i \<in> set (map UserInfo_Name (w_users x)) then (Some 6, None)
          else (None, Some ''user not found'')),
       InsertUser = (\<lambda>r rec x. (None, x\<lparr> w_users := w_users x @ [rec] \<rparr>)),
       InsertGroup = (\<lambda>r path parent x.
          if parent = '''' \<or> parent \<in> set (map fst (w_groups x))
          then (None, x\<lparr> w_groups := w_groups x @ [(path, parent)] \<rparr>)
          else (Some ''the parent affiliation does not exist'', x)) \<rparr>"

definition example_http :: "(example_world, nat) http_env" where
  "example_http =
     \<lparr> NewRegisterHandler = (\<lambda>g x. (Some 10, None)),
       NewEnrollHandler = (\<lambda>g x. (Some 11, None)),
       NewReenrollHandler = (\<lambda>g x. (Some 12, None)),
       NewRevokeHandler = (\<lambda>g x. (Some 13, None)),
       NewTCertHandler = (\<lambda>g x. (None, Some ''TCert is not supported'')),
       NewAuthWrapper = (\<lambda>path h err. (''/api/v1/cfssl/'' @ path, h, err)),
       http_NewServeMux = 0,
       mux_Handle = (\<lambda>m pattern h. Inr (Suc m)) \<rparr>"

definition example_net :: "(example_world, nat) net_env" where
  "example_net =
     \<lparr> tls_LoadX509KeyPair = (\<lambda>cert key x. Inl ''no such file''),
       tls_Listen = (\<lambda>addr cer x. (Inl ''address already in use'', x)),
       net_Listen = (\<lambda>addr x. (Inr 20, x)),
       http_Serve = (\<lambda>l m x. (''use of closed network connection'', x)),
       Listener_Close = (\<lambda>l x. (None, x)) \<rparr>"

definition example_cli :: "(example_world, nat) cli_env" where
  "example_cli =
     \<lparr> cli_PopFirstArgument = (\<lambda>args.
          case args of [] \<Rightarrow> Inl ''not enough arguments are supplied''
          | a # rest \<Rightarrow> Inr (a, rest)),
       cli_ReadStdin = (\<lambda>file x. Inr []),
       json_Unmarshal = (\<lambda>buf req. Inr (req\<lparr> Req_CN := ''example.com'' \<rparr>)) \<rparr>"

definition example_env :: "(example_world, nat) env" where
  "example_env =
     \<lparr> OS = example_os, Crypto = example_crypto, Dbutil = example_db, Reg = example_registry,
       Http = example_http, Net = example_net, Cli = example_cli,
       DefaultServerAddr = ''0.0.0.0'', DefaultServerPort = 7054, zero_settings = 0 \<rparr>"

text \<open>
  Two more environments: one whose registry accepts every affiliation, and one whose
  BCCSP factories cannot be initialised.
\<close>

definition accepting_env :: "(example_world, nat) env" where
  "accepting_env =
     example_env\<lparr> Reg := example_registry
       \<lparr> InsertGroup := (\<lambda>r path parent x.
            (None, x\<lparr> w_groups := w_groups x @ [(path, parent)] \<rparr>)) \<rparr> \<rparr>"

definition failing_csp_env :: "(example_world, nat) env" where
  "failing_csp_env =
     example_env\<lparr> Crypto := example_crypto
       \<lparr> factory_InitFactories := (\<lambda>opts x. (Some ''Failed initializing BCCSP.'', x)) \<rparr> \<rparr>"

definition example_globals :: "nat globals" where
  "example_globals =
     \<lparr> EnrollSigner = None, UserRegistry = None, MyCertDBAccessor = None, CAKeyFile = '''',
       CACertFile = '''', MyCSP = None, log_Level = LevelInfo \<rparr>"

definition empty_world :: example_world where
  "empty_world = \<lparr> w_files = [], w_groups = [], w_users = [], w_dbs = [] \<rparr>"

definition example_sys ::
  "nat ServerConfig \<Rightarrow> example_world \<Rightarrow> (example_world, nat) sys" where
  "example_sys c x =
     \<lparr> srv = example_server c, glob = example_globals, world = x, trace = [], logs = [] \<rparr>"

text \<open>The same, with the registry of a database that is open.\<close>

definition example_sys_db ::
  "nat ServerConfig \<Rightarrow> example_world \<Rightarrow> (example_world, nat) sys" where
  "example_sys_db c x =
     (example_sys c x)\<lparr> srv := (example_server c)\<lparr> db := Some 4,
                                                    registry := Some (DBAccessor (Some 4)) \<rparr> \<rparr>"

definition example_state :: "(example_world, nat) sys" where
  "example_state = example_sys_db example_config empty_world"

definition example_identity :: ServerConfigIdentity where
  "example_identity =
     \<lparr> ID = ''alice'', Pass = ''secret'', Type = ''user'', Affiliation = ''org1.dept1'',
       MaxEnrollments = - 1, Attributes = [(''hf.Revoker'', ''true'')] \<rparr>"

text \<open>The state after \<open>alice\<close> has been registered once.\<close>

definition example_registered_state :: "(example_world, nat) sys" where
  "example_registered_state =
     snd (addIdentity example_env example_identity False example_state)"

definition with_db_type :: "string \<Rightarrow> 'o ServerConfig \<Rightarrow> 'o ServerConfig" where
  "with_db_type ty c = c\<lparr> DB := (DB c)\<lparr> DB_Type := ty \<rparr> \<rparr>"

definition example_tree :: node where
  "example_tree =
     MapNode [ (''org1'', StrList [''dept1'', ''dept2'']),
               (''org2'', IfaceList [Str ''dept1'', MapNode [(''dept3'', Str ''team1'')]]) ]"

text \<open>
  A restart: the configuration lists an identity and an affiliation tree, and the
  database file is there already.
\<close>

definition example_bootstrap_config :: "nat ServerConfig" where
  "example_bootstrap_config =
     example_config\<lparr> Registry := \<lparr> Registry_MaxEnrollments = 5,
                                     Registry_Identities = [example_identity] \<rparr>,
                     Affiliations := example_tree \<rparr>"

definition existing_db_world :: example_world where
  "existing_db_world = empty_world\<lparr> w_dbs := [''/ca/fabric-ca-server.db''] \<rparr>"

definition example_restart :: "(example_world, nat) sys" where
  "example_restart = example_sys example_bootstrap_config existing_db_world"

text \<open>The state after the key material has been made once, on an empty file system.\<close>

definition example_first_run :: "(example_world, nat) sys" where
  "example_first_run =
     snd (initKeyMaterial example_env False (example_sys example_config empty_world))"

section \<open>Predicates used in the proofs\<close>

text \<open>
  What a run of a loader with the parent path \<open>p\<close>, from \<open>st\<close> to the result \<open>r\<close>, adds
  to the trace: \<open>extends\<close> says that it adds \<^verbatim>\<open>InsertGroup\<close> calls only, parents first
  for every set of known paths that holds \<open>p\<close>; \<open>grows\<close> only that the old trace is a
  prefix of the new one; \<open>calm\<close> that the run leaves the \<^verbatim>\<open>Server\<close> struct alone and
  ends neither in a panic nor in a fatal exit.
\<close>

definition extends :: "string \<Rightarrow> ('x, 'o) sys \<Rightarrow> error option \<times> ('x, 'o) sys \<Rightarrow> bool" where
  "extends p st r =
     (\<exists>new. trace (snd r) = trace st @ new \<and> only_InsertGroup new \<and>
        (\<forall>known. p \<in> set known \<longrightarrow> parents_first known new))"

definition grows :: "('x, 'o) sys \<Rightarrow> error option \<times> ('x, 'o) sys \<Rightarrow> bool" where
  "grows st r = (\<exists>new. trace (snd r) = trace st @ new)"

definition calm :: "('x, 'o) sys \<Rightarrow> error option \<times> ('x, 'o) sys \<Rightarrow> bool" where
  "calm st r = (srv (snd r) = srv st \<and> \<not> aborted (fst r))"

text \<open>
  \<open>performs pre st r\<close>: the run from \<open>st\<close> to the result \<open>r\<close> adds to the trace calls
  that follow \<open>pre\<close>.
\<close>

definition performs ::
  "(string \<times> string) list \<Rightarrow> ('x, 'o) sys \<Rightarrow> error option \<times> ('x, 'o) sys \<Rightarrow> bool" where
  "performs pre st r = (\<exists>new. trace (snd r) = trace st @ new \<and> follows pre (fst r) new)"

text \<open>
  \<open>keeps c st r\<close>: the step with result \<open>r\<close>, started in \<open>st\<close> with the configuration \<open>c\<close>,
  has not touched the back end and has left the database section of the configuration
  as it was.
\<close>

definition keeps ::
  "'o ServerConfig \<Rightarrow> ('x, 'o) sys \<Rightarrow> error option \<times> ('x, 'o) sys \<Rightarrow> bool" where
  "keeps c st r =
     (backend_untouched st (snd r) \<and>
      (\<exists>c1. Config (srv (snd r)) = Some c1 \<and> DB c1 = DB c))"

section \<open>Basic facts\<close>

lemma and_then_Some [simp]: "and_then (Some e, st) f = (Some e, st)"
  and and_then_None [simp]: "and_then (None, st) f = f st"
  by (simp_all add: and_then_def)

lemma and_then_failed: "fst r = Some e \<Longrightarrow> and_then r f = r"
  by (cases r) simp

lemma trace_called [simp]: "trace (called c x st) = trace st @ [c]"
  by (simp add: called_def)

lemma srv_called [simp]: "srv (called c x st) = srv st"
  by (simp add: called_def)

lemma world_called [simp]: "world (called c x st) = x"
  by (simp add: called_def)

lemma glob_called [simp]: "glob (called c x st) = glob st"
  by (simp add: called_def)

lemma logs_called [simp]: "logs (called c x st) = logs st"
  by (simp add: called_def)

lemma logf_simps [simp]:
  "trace (logf l m st) = trace st" "srv (logf l m st) = srv st" "world (logf l m st) = world st"
  "glob (logf l m st) = glob st" "logs (logf l m st) = logs st @ [(l, m)]"
  by (simp_all add: logf_def)

lemmas example_defs =
  example_env_def example_os_def example_crypto_def example_db_def example_registry_def
  example_http_def example_net_def example_cli_def example_sys_def example_sys_db_def
  example_server_def example_globals_def empty_world_def example_config_def example_state_def

section \<open>The enrollment quota\<close>

text \<open>
  C1.  \<^verbatim>\<open>getMaxEnrollments\<close> follows the quota table.  With \<open>configuredMax\<close> the
  registry's configured maximum: a negative request yields \<open>configuredMax\<close>; with
  \<open>configuredMax = 0\<close> a request \<open>\<ge> 0\<close> is granted as it is; with \<open>configuredMax > 0\<close> a
  request of \<open>0\<close> and a request above \<open>configuredMax\<close> are errors, and a request between
  \<open>1\<close> and \<open>configuredMax\<close> is granted as it is.
\<close>

theorem getMaxEnrollments_table:
  assumes "Config s = Some c" and "configuredMax = Registry_MaxEnrollments (Registry c)"
  shows "(requestedMax < 0 \<longrightarrow> getMaxEnrollments s requestedMax = Inr configuredMax)
       \<and> (configuredMax = 0 \<and> requestedMax \<ge> 0 \<longrightarrow>
            getMaxEnrollments s requestedMax = Inr requestedMax)
       \<and> (configuredMax > 0 \<and> requestedMax = 0 \<longrightarrow>
            (\<exists>msg. getMaxEnrollments s requestedMax = Inl (Error msg)))
       \<and> (configuredMax > 0 \<and> requestedMax > configuredMax \<longrightarrow>
            (\<exists>msg. getMaxEnrollments s requestedMax = Inl (Error msg)))
       \<and> (configuredMax > 0 \<and> 0 < requestedMax \<and> requestedMax \<le> configuredMax \<longrightarrow>
            getMaxEnrollments s requestedMax = Inr requestedMax)"
  using assms by (auto simp: getMaxEnrollments_def Let_def)

theorem getMaxEnrollments_table_witness:
  "getMaxEnrollments (example_server (with_registry_max 0 example_config)) (- 1) = Inr 0
 \<and> getMaxEnrollments (example_server (with_registry_max 0 example_config)) 4 = Inr 4
 \<and> getMaxEnrollments (example_server (with_registry_max 5 example_config)) (- 1) = Inr 5
 \<and> (\<exists>msg. getMaxEnrollments (example_server (with_registry_max 5 example_config)) 0
             = Inl (Error msg))
 \<and> (\<exists>msg. getMaxEnrollments (example_server (with_registry_max 5 example_config)) 7
             = Inl (Error msg))
 \<and> getMaxEnrollments (example_server (with_registry_max 5 example_config)) 3 = Inr 3"
proof -
  have c0: "Config (example_server (with_registry_max 0 example_config))
              = Some (with_registry_max 0 example_config)"
    and c5: "Config (example_server (with_registry_max 5 example_config))
              = Some (with_registry_max 5 example_config)"
    by (simp_all add: example_server_def)
  have m0: "(0::int) = Registry_MaxEnrollments (Registry (with_registry_max 0 example_config))"
    and m5: "(5::int) = Registry_MaxEnrollments (Registry (with_registry_max 5 example_config))"
    by (simp_all add: with_registry_max_def)
  show ?thesis
    using getMaxEnrollments_table [OF c0 m0, of "- 1"]
          getMaxEnrollments_table [OF c0 m0, of 4]
          getMaxEnrollments_table [OF c5 m5, of "- 1"]
          getMaxEnrollments_table [OF c5 m5, of 0]
          getMaxEnrollments_table [OF c5 m5, of 7]
          getMaxEnrollments_table [OF c5 m5, of 3]
    by simp
qed

section \<open>Affiliation paths\<close>

text \<open>
  C7.  The full path of an affiliation node is its parent's path, a dot and its name when
  the parent path is not empty, and its name alone at the root (empty parent path).
\<close>

theorem affiliationPath_shape:
  "(parent \<noteq> '''' \<longrightarrow> affiliationPath name parent = parent @ ''.'' @ name)
 \<and> (parent = '''' \<longrightarrow> affiliationPath name parent = name)"
  by (simp add: affiliationPath_def)

theorem affiliationPath_shape_witness:
  "affiliationPath ''dept1'' ''org1'' = ''org1.dept1'' \<and> affiliationPath ''org1'' '''' = ''org1''"
  using affiliationPath_shape [of "''org1''" "''dept1''"]
        affiliationPath_shape [of "''''" "''org1''"]
  by simp

section \<open>Traces of affiliation insertions\<close>

lemma inserted_append: "inserted (a @ b) = inserted a @ inserted b"
  by (induction a rule: inserted.induct) auto

lemma parents_first_mono:
  "parents_first known cs \<Longrightarrow> set known \<subseteq> set known' \<Longrightarrow> parents_first known' cs"
proof (induction cs arbitrary: known known')
  case Nil
  then show ?case by simp
next
  case (Cons c cs)
  show ?case
  proof (cases c)
    case (Call_InsertGroup path parent err)
    with Cons.prems have a: "parent \<in> set known'"
      and b: "parents_first (if err = None then path # known else known) cs"
      by auto
    have "set (if err = None then path # known else known)
            \<subseteq> set (if err = None then path # known' else known')"
      using Cons.prems(2) by auto
    from Cons.IH [OF b this] a Call_InsertGroup show ?thesis by simp
  qed (use Cons in \<open>auto\<close>)
qed

lemma parents_first_cong:
  "set known = set known' \<Longrightarrow> parents_first known cs = parents_first known' cs"
  using parents_first_mono [of known cs known'] parents_first_mono [of known' cs known]
  by auto

lemma parents_first_append:
  "parents_first known (a @ b) \<longleftrightarrow>
     parents_first known a \<and> parents_first (inserted a @ known) b"
proof (induction a arbitrary: known)
  case Nil
  then show ?case by simp
next
  case (Cons c a)
  show ?case
  proof (cases c)
    case (Call_InsertGroup path parent err)
    have "parents_first (inserted a @ path # known) b = parents_first (path # inserted a @ known) b"
      by (rule parents_first_cong) auto
    then show ?thesis using Call_InsertGroup Cons [of "path # known"] Cons [of known]
      by (cases err) auto
  qed (use Cons in \<open>auto\<close>)
qed

lemma only_InsertGroup_append:
  "only_InsertGroup (a @ b) \<longleftrightarrow> only_InsertGroup a \<and> only_InsertGroup b"
  by (induction a rule: only_InsertGroup.induct) auto

text \<open>
  The meaning of \<open>parents_first\<close> by positions: the parent named by the call at position
  \<open>i\<close> is known, or a call at an earlier position has inserted it with success.
\<close>

lemma set_inserted:
  "set (inserted cs) = {path. \<exists>parent. Call_InsertGroup path parent None \<in> set cs}"
  by (induction cs rule: inserted.induct) auto

lemma parents_first_take:
  "parents_first known cs \<longleftrightarrow>
     (\<forall>i<length cs. \<forall>path parent err. cs ! i = Call_InsertGroup path parent err \<longrightarrow>
        parent \<in> set known \<union> set (inserted (take i cs)))"
proof (induction cs arbitrary: known)
  case Nil
  then show ?case by simp
next
  case (Cons c cs)
  have split: "\<And>P. (\<forall>i<Suc (length cs). P i) \<longleftrightarrow> P 0 \<and> (\<forall>i<length cs. P (Suc i))"
    by (auto simp: less_Suc_eq_0_disj)
  show ?case
  proof (cases c)
    case (Call_InsertGroup path parent err)
    then show ?thesis
      by (cases err) (auto simp: split Cons [of "path # known"] Cons [of known])
  qed (auto simp: split Cons [of known])
qed

lemma parents_first_positions:
  "parents_first known cs \<longleftrightarrow>
     (\<forall>i<length cs. \<forall>path parent err. cs ! i = Call_InsertGroup path parent err \<longrightarrow>
        parent \<in> set known \<or> (\<exists>j<i. \<exists>grandparent. cs ! j = Call_InsertGroup parent grandparent None))"
proof -
  have "Call_InsertGroup parent g None \<in> set (take i cs) \<longleftrightarrow>
          (\<exists>j<i. cs ! j = Call_InsertGroup parent g None)"
    if "i < length cs" for i parent g
    using that by (auto simp: in_set_conv_nth)
  then show ?thesis
    unfolding parents_first_take set_inserted by (simp; blast)
qed

section \<open>What a loader adds to the trace\<close>

lemma extends_refl: "extends p st (None, st)" "extends p st (Some e, st)"
  by (simp_all add: extends_def)

lemma addAffiliation_cases:
  "addAffiliation E path p st = (Some nil_dereference, st) \<and> registry (srv st) = None
   \<or> (\<exists>x. addAffiliation E path p st = (None, called (Call_InsertGroup path p None) x st))
   \<or> (\<exists>x msg. addAffiliation E path p st
               = (Some (Error msg), called (Call_InsertGroup path p (Some msg)) x st))"
  by (cases "registry (srv st)"; cases "InsertGroup (Reg E) (the (registry (srv st))) path p (world st)";
      cases "fst (InsertGroup (Reg E) (the (registry (srv st))) path p (world st))")
     (auto simp: addAffiliation_def)

lemma extends_addAffiliation: "extends p st (addAffiliation E path p st)"
  using addAffiliation_cases [of E path p st]
  by (auto simp: extends_def)

lemma extends_and_then:
  assumes "extends p st r" and "\<And>st1. fst r = None \<Longrightarrow> extends p st1 (f st1)"
  shows "extends p st (and_then r f)"
proof (cases r)
  case (Pair e st1)
  show ?thesis
  proof (cases e)
    case None
    from assms(1) Pair obtain n1 where n1: "trace st1 = trace st @ n1" "only_InsertGroup n1"
      "\<forall>known. p \<in> set known \<longrightarrow> parents_first known n1"
      by (auto simp: extends_def)
    from assms(2) [of st1] Pair None obtain n2 where n2: "trace (snd (f st1)) = trace st1 @ n2"
      "only_InsertGroup n2" "\<forall>known. p \<in> set known \<longrightarrow> parents_first known n2"
      by (auto simp: extends_def)
    have "trace (snd (f st1)) = trace st @ (n1 @ n2)" using n1 n2 by simp
    moreover have "only_InsertGroup (n1 @ n2)" using n1 n2 by (simp add: only_InsertGroup_append)
    moreover have "\<forall>known. p \<in> set known \<longrightarrow> parents_first known (n1 @ n2)"
      using n1 n2 by (auto simp: parents_first_append)
    ultimately show ?thesis using Pair None unfolding extends_def by auto
  next
    case (Some a)
    then show ?thesis using assms(1) Pair by simp
  qed
qed

lemma extends_map_step:
  assumes "\<And>st1. extends path st1 (g st1)"
      and "\<And>st2. extends p st2 (h st2)"
  shows "extends p st (and_then (addAffiliation E path p st) (\<lambda>st1. and_then (g st1) h))"
proof -
  consider (nil) "addAffiliation E path p st = (Some nil_dereference, st)"
    | (ok) x where "addAffiliation E path p st = (None, called (Call_InsertGroup path p None) x st)"
    | (err) x msg where "addAffiliation E path p st
               = (Some (Error msg), called (Call_InsertGroup path p (Some msg)) x st)"
    using addAffiliation_cases [of E path p st] by blast
  then show ?thesis
  proof cases
    case nil
    then show ?thesis by (simp add: extends_refl)
  next
    case ok
    let ?st1 = "called (Call_InsertGroup path p None) x st"
    from assms(1) [of ?st1] obtain n2 where n2: "trace (snd (g ?st1)) = trace ?st1 @ n2"
      "only_InsertGroup n2" "\<forall>known. path \<in> set known \<longrightarrow> parents_first known n2"
      by (auto simp: extends_def)
    have inner: "extends p st (g ?st1)"
      unfolding extends_def
    proof (intro exI conjI allI impI)
      show "trace (snd (g ?st1)) = trace st @ (Call_InsertGroup path p None # n2)"
        using n2 by simp
      show "only_InsertGroup (Call_InsertGroup path p None # n2)" using n2 by simp
    next
      fix known assume "p \<in> set known"
      then show "parents_first known (Call_InsertGroup path p None # n2)"
        using n2 by simp
    qed
    have "extends p st (and_then (g ?st1) h)"
      by (rule extends_and_then [OF inner]) (rule assms(2))
    then show ?thesis using ok by simp
  next
    case err
    then show ?thesis by (simp add: extends_def)
  qed
qed

lemma loaders_extend:
  "extends p st (loadAffiliationsTableR E val p st)"
  "extends p st (range_strings E names p st)"
  "extends p st (range_interfaces E eles p st)"
  "extends p st (range_map E entries p st)"
proof (induction E val p st and E names p st and E eles p st and E entries p st
       rule: loadAffiliationsTableR_range_strings_range_interfaces_range_map.induct)
  case (12 E name ele entries parentPath st)
  show ?case
    unfolding range_map.simps Let_def
    by (rule extends_map_step) (use 12 in \<open>auto\<close>)
qed (auto simp: extends_refl extends_addAffiliation intro!: extends_and_then)

lemma extends_grows: "extends p st r \<Longrightarrow> grows st r"
  by (auto simp: extends_def grows_def)

lemma grows_and_then:
  assumes "grows st r" and "\<And>st1. grows st1 (f st1)"
  shows "grows st (and_then r f)"
proof (cases r)
  case (Pair e st1)
  then show ?thesis using assms(1) assms(2) [of st1]
    by (cases e) (auto simp: grows_def)
qed

section \<open>Panics of the loader\<close>

lemma addAffiliation_srv: "srv (snd (addAffiliation E path p st)) = srv st"
  by (auto simp: addAffiliation_def split: option.splits prod.splits)

lemma addAffiliation_no_abort:
  "registry (srv st) \<noteq> None \<Longrightarrow> \<not> aborted (fst (addAffiliation E path p st))"
  by (auto simp: addAffiliation_def aborted_def split: option.splits prod.splits)

lemma calm_and_then:
  assumes "calm st r" and "\<And>st1. srv st1 = srv st \<Longrightarrow> calm st1 (f st1)"
  shows "calm st (and_then r f)"
proof (cases r)
  case (Pair e st1)
  then show ?thesis using assms(1) assms(2) [of st1]
    by (cases e) (auto simp: calm_def)
qed

lemma calm_addAffiliation:
  "registry (srv st) \<noteq> None \<Longrightarrow> calm st (addAffiliation E path p st)"
  by (simp add: calm_def addAffiliation_srv addAffiliation_no_abort)

lemma loaders_calm:
  "registry (srv st) \<noteq> None \<Longrightarrow> supported val \<Longrightarrow> calm st (loadAffiliationsTableR E val p st)"
  "registry (srv st) \<noteq> None \<Longrightarrow> calm st (range_strings E names p st)"
  "registry (srv st) \<noteq> None \<Longrightarrow> list_all supported eles \<Longrightarrow> calm st (range_interfaces E eles p st)"
  "registry (srv st) \<noteq> None \<Longrightarrow> list_all (\<lambda>entry. supported (snd entry)) entries
     \<Longrightarrow> calm st (range_map E entries p st)"
proof (induction E val p st and E names p st and E eles p st and E entries p st
       rule: loadAffiliationsTableR_range_strings_range_interfaces_range_map.induct)
  case (12 E name ele entries parentPath st)
  show ?case
    unfolding range_map.simps Let_def
  proof (rule calm_and_then [OF calm_addAffiliation [OF "12.prems"(1)]], goal_cases)
    case (1 st1)
    show ?case
    proof (rule calm_and_then, goal_cases)
      case 1
      show ?case using 12 \<open>srv st1 = srv st\<close> by simp
    next
      case (2 st2)
      then show ?case using 12 \<open>srv st1 = srv st\<close> by simp
    qed
  qed
next
  case (8 E ele names parentPath st)
  show ?case
    unfolding range_strings.simps
    by (rule calm_and_then) (use 8 in \<open>auto\<close>)
next
  case (10 E ele eles parentPath st)
  show ?case
    unfolding range_interfaces.simps
    by (rule calm_and_then) (use 10 in \<open>auto\<close>)
qed (simp_all add: calm_addAffiliation, simp_all add: calm_def aborted_def)

section \<open>The insertions in the order of the tree\<close>

lemma follows_simps:
  "follows pre None new \<longleftrightarrow> new = map inserts pre"
  "follows pre (Some (Error msg)) new \<longleftrightarrow>
     (\<exists>k<length pre. new = map inserts (take k pre)
                   @ [Call_InsertGroup (fst (pre ! k)) (snd (pre ! k)) (Some msg)])"
  "follows pre (Some (Panic m)) new \<longleftrightarrow> (\<exists>k\<le>length pre. new = map inserts (take k pre))"
  "follows pre (Some (Fatal m)) new \<longleftrightarrow> (\<exists>k\<le>length pre. new = map inserts (take k pre))"
  by (auto simp: follows_def)

lemma follows_left:
  "follows pre1 (Some e) new \<Longrightarrow> follows (pre1 @ pre2) (Some e) new"
proof (cases e)
  case (Error msg)
  assume "follows pre1 (Some e) new"
  then obtain k where "k < length pre1" "new = map inserts (take k pre1)
                   @ [Call_InsertGroup (fst (pre1 ! k)) (snd (pre1 ! k)) (Some msg)]"
    using Error by (auto simp: follows_simps)
  then show ?thesis unfolding Error follows_simps
    by (intro exI [of _ k]) (simp add: nth_append)
next
  case (Panic m)
  assume "follows pre1 (Some e) new"
  then obtain k where "k \<le> length pre1" "new = map inserts (take k pre1)"
    using Panic by (auto simp: follows_simps)
  then show ?thesis unfolding Panic follows_simps
    by (intro exI [of _ k]) simp
next
  case (Fatal m)
  assume "follows pre1 (Some e) new"
  then obtain k where "k \<le> length pre1" "new = map inserts (take k pre1)"
    using Fatal by (auto simp: follows_simps)
  then show ?thesis unfolding Fatal follows_simps
    by (intro exI [of _ k]) simp
qed

lemma follows_right:
  "follows pre2 r new \<Longrightarrow> follows (pre1 @ pre2) r (map inserts pre1 @ new)"
proof (cases r)
  case None
  assume "follows pre2 r new"
  then show ?thesis using None by (simp add: follows_simps)
next
  case (Some e)
  assume f: "follows pre2 r new"
  show ?thesis
  proof (cases e)
    case (Error msg)
    from f obtain k where "k < length pre2" "new = map inserts (take k pre2)
                   @ [Call_InsertGroup (fst (pre2 ! k)) (snd (pre2 ! k)) (Some msg)]"
      using Some Error by (auto simp: follows_simps)
    then show ?thesis unfolding Some Error follows_simps
      by (intro exI [of _ "length pre1 + k"]) (simp add: nth_append)
  next
    case (Panic m)
    from f obtain k where "k \<le> length pre2" "new = map inserts (take k pre2)"
      using Some Panic by (auto simp: follows_simps)
    then show ?thesis unfolding Some Panic follows_simps
      by (intro exI [of _ "length pre1 + k"]) simp
  next
    case (Fatal m)
    from f obtain k where "k \<le> length pre2" "new = map inserts (take k pre2)"
      using Some Fatal by (auto simp: follows_simps)
    then show ?thesis unfolding Some Fatal follows_simps
      by (intro exI [of _ "length pre1 + k"]) simp
  qed
qed

lemma performs_and_then:
  assumes "performs pre1 st r" and "\<And>st1. performs pre2 st1 (f st1)"
  shows "performs (pre1 @ pre2) st (and_then r f)"
proof (cases r)
  case (Pair e st1)
  show ?thesis
  proof (cases e)
    case None
    from assms(1) Pair None have t1: "trace st1 = trace st @ map inserts pre1"
      by (auto simp: performs_def follows_simps)
    from assms(2) [of st1] obtain new where
      n: "trace (snd (f st1)) = trace st1 @ new" "follows pre2 (fst (f st1)) new"
      by (auto simp: performs_def)
    have "trace (snd (f st1)) = trace st @ (map inserts pre1 @ new)" using t1 n by simp
    moreover have "follows (pre1 @ pre2) (fst (f st1)) (map inserts pre1 @ new)"
      by (rule follows_right) (rule n)
    ultimately show ?thesis using Pair None unfolding performs_def by auto
  next
    case (Some a)
    then show ?thesis using assms(1) Pair
      by (auto simp: performs_def intro: follows_left)
  qed
qed

lemma performs_addAffiliation: "performs [(path, p)] st (addAffiliation E path p st)"
  using addAffiliation_cases [of E path p st]
  by (auto simp: performs_def follows_simps inserts_def nil_dereference_def)

lemma performs_nothing: "performs [] st (None, st)"
  by (simp add: performs_def follows_simps)

lemma loaders_perform:
  "performs (insertion_order val p) st (loadAffiliationsTableR E val p st)"
  "performs (insertion_order (StrList names) p) st (range_strings E names p st)"
  "performs (insertion_order (IfaceList eles) p) st (range_interfaces E eles p st)"
  "performs (insertion_order (MapNode entries) p) st (range_map E entries p st)"
proof (induction E val p st and E names p st and E eles p st and E entries p st
       rule: loadAffiliationsTableR_range_strings_range_interfaces_range_map.induct)
  case (6 E t parentPath st)
  show ?case by (simp add: performs_def follows_simps)
next
  case (8 E ele names parentPath st)
  have "performs (insertion_order (Str ele) parentPath @ insertion_order (StrList names) parentPath)
          st (and_then (loadAffiliationsTableR E (Str ele) parentPath st)
                (range_strings E names parentPath))"
    by (rule performs_and_then) (use 8 in \<open>auto\<close>)
  then show ?case by simp
next
  case (10 E ele eles parentPath st)
  have "performs (insertion_order ele parentPath @ insertion_order (IfaceList eles) parentPath)
          st (and_then (loadAffiliationsTableR E ele parentPath st)
                (range_interfaces E eles parentPath))"
    by (rule performs_and_then) (use 10 in \<open>auto\<close>)
  then show ?case by simp
next
  case (12 E name ele entries parentPath st)
  let ?path = "affiliationPath name parentPath"
  have "performs ([(?path, parentPath)]
                  @ (insertion_order ele ?path @ insertion_order (MapNode entries) parentPath))
          st (and_then (addAffiliation E ?path parentPath st)
                (\<lambda>st1. and_then (loadAffiliationsTableR E ele ?path st1)
                          (range_map E entries parentPath)))"
    by (rule performs_and_then [OF performs_addAffiliation])
       (rule performs_and_then, use 12 in \<open>auto\<close>)
  then show ?case by (simp add: Let_def)
qed (simp_all add: performs_nothing performs_addAffiliation)

lemma insertion_order_entry:
  "insertion_order (MapNode (before @ (name, ele) # after)) p
     = insertion_order (MapNode before) p
       @ (affiliationPath name p, p) # insertion_order ele (affiliationPath name p)
       @ insertion_order (MapNode after) p"
  by simp

lemma top_level_inserted:
  "name \<in> set (top_level val) \<Longrightarrow> (affiliationPath name p, p) \<in> set (insertion_order val p)"
  by (induction val p rule: insertion_order.induct) auto

lemma addAffiliation_succeeds:
  assumes "\<forall>r path parent x. fst (InsertGroup (Reg E) r path parent x) = None"
      and "registry (srv st) \<noteq> None"
  shows "fst (addAffiliation E path p st) = None"
proof -
  from assms(2) obtain r where r: "registry (srv st) = Some r" by auto
  obtain err x where i: "InsertGroup (Reg E) r path p (world st) = (err, x)"
    by (cases "InsertGroup (Reg E) r path p (world st)")
  from assms(1) have "fst (InsertGroup (Reg E) r path p (world st)) = None" by blast
  with i have "err = None" by simp
  with r i show ?thesis by (simp add: addAffiliation_def)
qed

lemma succeeds_and_then:
  assumes "fst r = None" "calm st r"
      and "\<And>st1. srv st1 = srv st \<Longrightarrow> fst (f st1) = None"
  shows "fst (and_then r f) = None"
  using assms by (cases r) (auto simp: calm_def)

lemma loaders_succeed:
  assumes ig: "\<forall>r path parent x. fst (InsertGroup (Reg E) r path parent x) = None"
  shows "registry (srv st) \<noteq> None \<Longrightarrow> supported val
           \<Longrightarrow> fst (loadAffiliationsTableR E val p st) = None"
    and "registry (srv st) \<noteq> None \<Longrightarrow> fst (range_strings E names p st) = None"
    and "registry (srv st) \<noteq> None \<Longrightarrow> list_all supported eles
           \<Longrightarrow> fst (range_interfaces E eles p st) = None"
    and "registry (srv st) \<noteq> None \<Longrightarrow> list_all (\<lambda>entry. supported (snd entry)) entries
           \<Longrightarrow> fst (range_map E entries p st) = None"
  using ig
proof (induction E val p st and E names p st and E eles p st and E entries p st
       rule: loadAffiliationsTableR_range_strings_range_interfaces_range_map.induct)
  case (2 E name parentPath st)
  then show ?case by (simp add: addAffiliation_succeeds)
next
  case (8 E ele names parentPath st)
  show ?case
    unfolding range_strings.simps
  proof (rule succeeds_and_then [where st = st], goal_cases)
    case 1
    show ?case using 8 by simp
  next
    case 2
    show ?case using 8 by (simp add: calm_addAffiliation)
  next
    case (3 st1)
    then show ?case using 8 by simp
  qed
next
  case (10 E ele eles parentPath st)
  show ?case
    unfolding range_interfaces.simps
  proof (rule succeeds_and_then [where st = st], goal_cases)
    case 1
    show ?case using 10 by simp
  next
    case 2
    show ?case using 10 by (simp add: loaders_calm(1))
  next
    case (3 st1)
    then show ?case using 10 by simp
  qed
next
  case (12 E name ele entries parentPath st)
  let ?path = "affiliationPath name parentPath"
  show ?case
    unfolding range_map.simps Let_def
  proof (rule succeeds_and_then [where st = st], goal_cases)
    case 1
    show ?case using 12 by (simp add: addAffiliation_succeeds)
  next
    case 2
    show ?case using 12 by (simp add: calm_addAffiliation)
  next
    case (3 st1)
    note s1 = this
    show ?case
    proof (rule succeeds_and_then [where st = st1], goal_cases)
      case 1
      show ?case using 12 s1 by simp
    next
      case 2
      show ?case using 12 s1 by (simp add: loaders_calm(1))
    next
      case (3 st2)
      then show ?case using 12 s1 by simp
    qed
  qed
qed simp_all

lemma loadAffiliationsTable_root:
  "Config (srv st) = Some c \<Longrightarrow>
     loadAffiliationsTable E st = loadAffiliationsTableR E (Affiliations c) '''' st"
  by (simp add: loadAffiliationsTable_def)

lemma loader_trace:
  "\<exists>new. trace (snd (loadAffiliationsTableR E val parentPath st)) = trace st @ new
       \<and> follows (insertion_order val parentPath)
                 (fst (loadAffiliationsTableR E val parentPath st)) new
       \<and> only_InsertGroup new \<and> parents_first [parentPath] new"
proof -
  from loaders_perform(1) [of val parentPath st E] obtain n1 where
    n1: "trace (snd (loadAffiliationsTableR E val parentPath st)) = trace st @ n1"
        "follows (insertion_order val parentPath)
                 (fst (loadAffiliationsTableR E val parentPath st)) n1"
    by (auto simp: performs_def)
  from loaders_extend(1) [of parentPath st E val] obtain n2 where
    n2: "trace (snd (loadAffiliationsTableR E val parentPath st)) = trace st @ n2"
        "only_InsertGroup n2" "parents_first [parentPath] n2"
    by (auto simp: extends_def)
  from n1(1) n2(1) have "n1 = n2" by simp
  with n1 n2 show ?thesis by blast
qed

lemma loader_first_call:
  assumes reg: "registry (srv st) \<noteq> None"
  shows "\<exists>err rest. trace (snd (loadAffiliationsTableR E (MapNode ((name, ele) # entries))
                               parentPath st))
                   = trace st @ Call_InsertGroup (affiliationPath name parentPath) parentPath err
                                # rest
                 \<and> (err \<noteq> None \<longrightarrow> rest = [])"
proof -
  let ?path = "affiliationPath name parentPath"
  from reg consider (ok) x where
      "addAffiliation E ?path parentPath st = (None, called (Call_InsertGroup ?path parentPath None) x st)"
    | (err) x msg where "addAffiliation E ?path parentPath st
               = (Some (Error msg), called (Call_InsertGroup ?path parentPath (Some msg)) x st)"
    using addAffiliation_cases [of E ?path parentPath st] by auto
  then show ?thesis
  proof cases
    case ok
    let ?st1 = "called (Call_InsertGroup ?path parentPath None) x st"
    have "grows ?st1 (and_then (loadAffiliationsTableR E ele ?path ?st1)
                        (range_map E entries parentPath))"
      by (rule grows_and_then)
         (rule extends_grows, rule loaders_extend(1), rule extends_grows, rule loaders_extend(4))
    then obtain rest where
      "trace (snd (and_then (loadAffiliationsTableR E ele ?path ?st1)
                     (range_map E entries parentPath))) = trace ?st1 @ rest"
      by (auto simp: grows_def)
    then show ?thesis using ok by (auto simp: Let_def)
  next
    case err
    then show ?thesis by (auto simp: Let_def)
  qed
qed

section \<open>The order of the affiliation insertions\<close>

text \<open>
  C2.  For every configuration tree, parent path, registry and starting state, the calls
  that the recursive loader adds to the trace are \<^verbatim>\<open>InsertGroup\<close> calls only, and they
  follow \<open>insertion_order\<close> of the tree: the run makes these insertions, in this order,
  up to the first one that fails or to a panic, and all of them when it returns \<^verbatim>\<open>nil\<close>.
  In that order the insertion of a mapping entry's own path, at whatever place the entry
  has in its node, comes right before the insertions of the entry's children, which are
  made under that path, and the entries after it follow under the parent path of the
  node; every name of the root level is inserted under the path the loader was started
  with.  So each call names a parent that is the loader's parent path or a path that an
  earlier call of the run has inserted with success (\<open>parents_first\<close>).
  \<^verbatim>\<open>loadAffiliationsTable\<close> is the recursive loader on the configured tree with the
  empty parent path, so the names of the root level are inserted with the empty parent.
  With a registry in place and a tree of the five shapes, the run ends with \<^verbatim>\<open>nil\<close> or
  with a returned error, and with \<^verbatim>\<open>nil\<close> when the registry accepts every insertion.
  For a mapping node the first call is the insertion of the first entry's own path, and
  nothing follows when that insertion fails.
\<close>

theorem loadAffiliationsTableR_parent_before_child:
  "(\<exists>new. trace (snd (loadAffiliationsTableR E val parentPath st)) = trace st @ new
       \<and> follows (insertion_order val parentPath)
                 (fst (loadAffiliationsTableR E val parentPath st)) new
       \<and> only_InsertGroup new \<and> parents_first [parentPath] new)
 \<and> (Config (srv st) = Some c \<longrightarrow>
      loadAffiliationsTable E st = loadAffiliationsTableR E (Affiliations c) '''' st
    \<and> (\<exists>new. trace (snd (loadAffiliationsTable E st)) = trace st @ new
          \<and> follows (insertion_order (Affiliations c) '''') (fst (loadAffiliationsTable E st)) new
          \<and> only_InsertGroup new \<and> parents_first [''''] new)
    \<and> (\<forall>name \<in> set (top_level (Affiliations c)).
          (name, '''') \<in> set (insertion_order (Affiliations c) '''')))
 \<and> (registry (srv st) \<noteq> None \<and> supported val \<longrightarrow>
      fst (loadAffiliationsTableR E val parentPath st) = None
    \<or> (\<exists>msg. fst (loadAffiliationsTableR E val parentPath st) = Some (Error msg)))
 \<and> (registry (srv st) \<noteq> None \<and> supported val
      \<and> (\<forall>r path parent x. fst (InsertGroup (Reg E) r path parent x) = None) \<longrightarrow>
      fst (loadAffiliationsTableR E val parentPath st) = None
    \<and> trace (snd (loadAffiliationsTableR E val parentPath st))
        = trace st @ map inserts (insertion_order val parentPath))
 \<and> insertion_order (MapNode (before @ (name, ele) # after)) parentPath
     = insertion_order (MapNode before) parentPath
       @ (affiliationPath name parentPath, parentPath)
         # insertion_order ele (affiliationPath name parentPath)
       @ insertion_order (MapNode after) parentPath
 \<and> (\<forall>root \<in> set (top_level val).
       (affiliationPath root parentPath, parentPath) \<in> set (insertion_order val parentPath))
 \<and> (registry (srv st) \<noteq> None \<longrightarrow>
      (\<exists>err rest. trace (snd (loadAffiliationsTableR E (MapNode ((name, ele) # entries))
                               parentPath st))
                   = trace st @ Call_InsertGroup (affiliationPath name parentPath) parentPath err
                                # rest
                 \<and> (err \<noteq> None \<longrightarrow> rest = [])))"
proof (intro conjI impI ballI)
  show "\<exists>new. trace (snd (loadAffiliationsTableR E val parentPath st)) = trace st @ new
       \<and> follows (insertion_order val parentPath)
                 (fst (loadAffiliationsTableR E val parentPath st)) new
       \<and> only_InsertGroup new \<and> parents_first [parentPath] new"
    by (rule loader_trace)
next
  assume c: "Config (srv st) = Some c"
  show r: "loadAffiliationsTable E st = loadAffiliationsTableR E (Affiliations c) '''' st"
    by (rule loadAffiliationsTable_root [OF c])
  show "\<exists>new. trace (snd (loadAffiliationsTable E st)) = trace st @ new
          \<and> follows (insertion_order (Affiliations c) '''') (fst (loadAffiliationsTable E st)) new
          \<and> only_InsertGroup new \<and> parents_first [''''] new"
    unfolding r by (rule loader_trace)
next
  fix name
  assume "name \<in> set (top_level (Affiliations c))"
  from top_level_inserted [OF this, of "''''"]
  show "(name, '''') \<in> set (insertion_order (Affiliations c) '''')"
    by (simp add: affiliationPath_def)
next
  assume a: "registry (srv st) \<noteq> None \<and> supported val"
  then have "calm st (loadAffiliationsTableR E val parentPath st)"
    by (simp add: loaders_calm(1))
  then have "\<not> aborted (fst (loadAffiliationsTableR E val parentPath st))"
    by (simp add: calm_def)
  then show "fst (loadAffiliationsTableR E val parentPath st) = None
    \<or> (\<exists>msg. fst (loadAffiliationsTableR E val parentPath st) = Some (Error msg))"
    by (cases "fst (loadAffiliationsTableR E val parentPath st)")
       (auto simp: aborted_def split: error.splits)
next
  assume a: "registry (srv st) \<noteq> None \<and> supported val
      \<and> (\<forall>r path parent x. fst (InsertGroup (Reg E) r path parent x) = None)"
  then show ok: "fst (loadAffiliationsTableR E val parentPath st) = None"
    using loaders_succeed(1) [of E st val parentPath] by blast
  from loaders_perform(1) [of val parentPath st E]
  show "trace (snd (loadAffiliationsTableR E val parentPath st))
        = trace st @ map inserts (insertion_order val parentPath)"
    by (auto simp: performs_def ok follows_simps)
next
  show "insertion_order (MapNode (before @ (name, ele) # after)) parentPath
     = insertion_order (MapNode before) parentPath
       @ (affiliationPath name parentPath, parentPath)
         # insertion_order ele (affiliationPath name parentPath)
       @ insertion_order (MapNode after) parentPath"
    by (rule insertion_order_entry)
next
  fix root assume "root \<in> set (top_level val)"
  then show "(affiliationPath root parentPath, parentPath) \<in> set (insertion_order val parentPath)"
    by (rule top_level_inserted)
next
  assume "registry (srv st) \<noteq> None"
  then show "\<exists>err rest. trace (snd (loadAffiliationsTableR E (MapNode ((name, ele) # entries))
                               parentPath st))
                   = trace st @ Call_InsertGroup (affiliationPath name parentPath) parentPath err
                                # rest
                 \<and> (err \<noteq> None \<longrightarrow> rest = [])"
    by (rule loader_first_call)
qed

lemma example_tree_order:
  "insertion_order example_tree '''' =
     [(''org1'', ''''), (''org1.dept1'', ''org1''), (''org1.dept2'', ''org1''), (''org2'', ''''),
      (''org2.dept1'', ''org2''), (''org2.dept3'', ''org2''),
      (''org2.dept3.team1'', ''org2.dept3'')]"
  "top_level example_tree = [''org1'', ''org2'']"
  "supported example_tree"
  by (simp_all add: example_tree_def affiliationPath_def)

lemma example_table_result:
  "fst (loadAffiliationsTable example_env (example_sys_db example_bootstrap_config empty_world))
     = None"
  by (simp add: loadAffiliationsTable_def example_defs example_bootstrap_config_def
        example_tree_def addAffiliation_def affiliationPath_def called_def Let_def)

theorem loadAffiliationsTableR_parent_before_child_witness:
  "registry (srv (example_sys_db example_bootstrap_config empty_world))
     = Some (DBAccessor (Some 4))
 \<and> Config (srv (example_sys_db example_bootstrap_config empty_world))
     = Some example_bootstrap_config
 \<and> Affiliations example_bootstrap_config = example_tree
 \<and> supported example_tree
 \<and> top_level example_tree = [''org1'', ''org2'']
 \<and> (''org1'', '''') \<in> set (insertion_order example_tree '''')
 \<and> (''org2'', '''') \<in> set (insertion_order example_tree '''')
 \<and> fst (loadAffiliationsTable example_env (example_sys_db example_bootstrap_config empty_world))
     = None
 \<and> trace (snd (loadAffiliationsTable example_env
                  (example_sys_db example_bootstrap_config empty_world)))
     = [Call_InsertGroup ''org1'' '''' None, Call_InsertGroup ''org1.dept1'' ''org1'' None,
        Call_InsertGroup ''org1.dept2'' ''org1'' None, Call_InsertGroup ''org2'' '''' None,
        Call_InsertGroup ''org2.dept1'' ''org2'' None,
        Call_InsertGroup ''org2.dept3'' ''org2'' None,
        Call_InsertGroup ''org2.dept3.team1'' ''org2.dept3'' None]
 \<and> (\<forall>r path parent x. fst (InsertGroup (Reg accepting_env) r path parent x) = None)
 \<and> trace (snd (loadAffiliationsTableR accepting_env example_tree ''''
                  (example_sys_db example_bootstrap_config empty_world)))
     = [Call_InsertGroup ''org1'' '''' None, Call_InsertGroup ''org1.dept1'' ''org1'' None,
        Call_InsertGroup ''org1.dept2'' ''org1'' None, Call_InsertGroup ''org2'' '''' None,
        Call_InsertGroup ''org2.dept1'' ''org2'' None,
        Call_InsertGroup ''org2.dept3'' ''org2'' None,
        Call_InsertGroup ''org2.dept3.team1'' ''org2.dept3'' None]"
proof -
  let ?S = "example_sys_db example_bootstrap_config empty_world"
  have reg: "registry (srv ?S) = Some (DBAccessor (Some 4))"
    and cfg: "Config (srv ?S) = Some example_bootstrap_config"
    and t0: "trace ?S = []"
    by (simp_all add: example_sys_db_def example_sys_def example_server_def)
  have reg': "registry (srv ?S) \<noteq> None" using reg by simp
  have aff: "Affiliations example_bootstrap_config = example_tree"
    by (simp add: example_bootstrap_config_def)
  have acc: "\<forall>r path parent x. fst (InsertGroup (Reg accepting_env) r path parent x) = None"
    by (simp add: accepting_env_def)
  note sup = example_tree_order(3)
  note main = loadAffiliationsTableR_parent_before_child
    [where E = example_env and st = ?S and c = example_bootstrap_config
       and val = example_tree and parentPath = "''''", unfolded aff t0 append_Nil]
  from main cfg obtain new where
    new: "trace (snd (loadAffiliationsTable example_env ?S)) = new"
         "follows (insertion_order example_tree '''')
            (fst (loadAffiliationsTable example_env ?S)) new"
    by blast
  from new(2) have "new = map inserts (insertion_order example_tree '''')"
    by (simp add: example_table_result follows_def)
  with new(1) have tr: "trace (snd (loadAffiliationsTable example_env ?S))
                        = map inserts (insertion_order example_tree '''')"
    by simp
  from main cfg have roots: "\<forall>name \<in> set (top_level example_tree).
          (name, '''') \<in> set (insertion_order example_tree '''')"
    by blast
  note main2 = loadAffiliationsTableR_parent_before_child
    [where E = accepting_env and st = ?S and val = example_tree and parentPath = "''''",
     unfolded t0 append_Nil]
  from main2 reg' sup acc have tr2:
    "trace (snd (loadAffiliationsTableR accepting_env example_tree '''' ?S))
       = map inserts (insertion_order example_tree '''')"
    by blast
  have r1: "(''org1'', '''') \<in> set (insertion_order example_tree '''')"
    and r2: "(''org2'', '''') \<in> set (insertion_order example_tree '''')"
    using roots unfolding example_tree_order(2) by simp_all
  show ?thesis
    using reg cfg aff sup example_tree_order(2) r1 r2 example_table_result acc
    unfolding tr tr2 example_tree_order(1)
    by (simp add: inserts_def)
qed

text \<open>
  C9.  A node of any dynamic type other than nil, string, \<^verbatim>\<open>[]string\<close>,
  \<^verbatim>\<open>[]interface{}\<close> and \<^verbatim>\<open>map[string]interface{}\<close> makes
  \<^verbatim>\<open>loadAffiliationsTableR\<close> panic in its default branch, whatever the registry and the
  state, instead of returning an error; the state is as it was.  On a tree whose nodes
  all have one of the five shapes, with a registry in place, the loader never panics.
\<close>

theorem loadAffiliationsTableR_panics_on_other_types:
  "(\<exists>msg. loadAffiliationsTableR E (Other t) parentPath st = (Some (Panic msg), st))
 \<and> (registry (srv st) \<noteq> None \<and> supported val \<longrightarrow>
      (\<forall>msg. fst (loadAffiliationsTableR E val parentPath st) \<noteq> Some (Panic msg)))"
proof (intro conjI impI allI)
  show "\<exists>msg. loadAffiliationsTableR E (Other t) parentPath st = (Some (Panic msg), st)"
    by simp
next
  fix msg
  assume "registry (srv st) \<noteq> None \<and> supported val"
  then have "calm st (loadAffiliationsTableR E val parentPath st)"
    by (simp add: loaders_calm)
  then show "fst (loadAffiliationsTableR E val parentPath st) \<noteq> Some (Panic msg)"
    by (auto simp: calm_def aborted_def)
qed

theorem loadAffiliationsTableR_panics_on_other_types_witness:
  "loadAffiliationsTableR example_env (Other ''int'') '''' example_state
     = (Some (Panic ''interface conversion: interface {} is int, not map[string]interface {}''),
        example_state)
 \<and> registry (srv example_state) \<noteq> None \<and> supported example_tree
 \<and> (\<forall>msg. fst (loadAffiliationsTableR example_env example_tree '''' example_state)
            \<noteq> Some (Panic msg))"
proof -
  have reg: "registry (srv example_state) \<noteq> None"
    by (simp add: example_state_def example_sys_db_def example_sys_def)
  have sup: "supported example_tree" by (simp add: example_tree_def)
  from loadAffiliationsTableR_panics_on_other_types
         [of example_env "''int''" "''''" example_state example_tree] reg sup
  show ?thesis by simp
qed

section \<open>Identities that are already registered\<close>

lemma called_same_world: "called c (world st) st = st\<lparr> trace := trace st @ [c] \<rparr>"
  by (simp add: called_def)

text \<open>
  C4.  With \<^verbatim>\<open>errIfFound = false\<close>, as in the bootstrap load, \<^verbatim>\<open>addIdentity\<close> on an
  identity for which the registry's \<^verbatim>\<open>GetUser\<close> gives a user returns \<^verbatim>\<open>nil\<close> and
  leaves the state as it was but for the \<^verbatim>\<open>GetUser\<close> call in the trace: no
  \<^verbatim>\<open>InsertUser\<close> call, the registry (the outside world) untouched.  So a bootstrap list
  of identities that are all registered already loads with success and changes nothing.
\<close>

theorem addIdentity_existing_is_noop:
  fixes st :: "('x, 'o) sys"
  assumes "registry (srv st) = Some r"
  shows "(fst (GetUser (Reg E) r (ID ident) [] (world st)) \<noteq> None \<longrightarrow>
            addIdentity E ident False st
              = (None, st\<lparr> trace := trace st @ [Call_GetUser (ID ident)] \<rparr>))
       \<and> ((\<forall>i \<in> set ids. fst (GetUser (Reg E) r (ID i) [] (world st)) \<noteq> None) \<longrightarrow>
            loadUsersTable_range E ids st
              = (None, st\<lparr> trace := trace st @ map (\<lambda>i. Call_GetUser (ID i)) ids \<rparr>))"
proof -
  have one: "addIdentity E i False s = (None, s\<lparr> trace := trace s @ [Call_GetUser (ID i)] \<rparr>)"
    if "registry (srv s) = Some r" and "fst (GetUser (Reg E) r (ID i) [] (world s)) \<noteq> None"
    for i and s :: "('x, 'o) sys"
    using that by (auto simp: addIdentity_def Let_def called_same_world split: prod.splits)
  have many: "loadUsersTable_range E ids s
                = (None, s\<lparr> trace := trace s @ map (\<lambda>i. Call_GetUser (ID i)) ids \<rparr>)"
    if "registry (srv s) = Some r"
      and "\<forall>i \<in> set ids. fst (GetUser (Reg E) r (ID i) [] (world s)) \<noteq> None"
    for s :: "('x, 'o) sys"
    using that
  proof (induction ids arbitrary: s)
    case Nil
    then show ?case by simp
  next
    case (Cons i ids)
    let ?s1 = "s\<lparr> trace := trace s @ [Call_GetUser (ID i)] \<rparr>"
    have "addIdentity E i False s = (None, ?s1)"
      using one [of s i] Cons.prems by simp
    moreover have "loadUsersTable_range E ids ?s1
        = (None, ?s1\<lparr> trace := trace ?s1 @ map (\<lambda>i. Call_GetUser (ID i)) ids \<rparr>)"
      using Cons.prems by (intro Cons.IH) auto
    ultimately show ?case by simp
  qed
  show ?thesis using one [of st ident] many [of st] assms by blast
qed

lemma example_registered:
  "fst (addIdentity example_env example_identity False example_state) = None"
  "registry (srv example_registered_state) = Some (DBAccessor (Some 4))"
  "map UserInfo_Name (w_users (world example_registered_state)) = [''alice'']"
  "map UserInfo_Pass (w_users (world example_registered_state)) = [''secret'']"
  "map UserInfo_MaxEnrollments (w_users (world example_registered_state)) = [5]"
  by (simp_all add: example_registered_state_def example_defs example_identity_def addIdentity_def
        getMaxEnrollments_def convertAttrs_def called_def Let_def)

theorem addIdentity_existing_is_noop_witness:
  "registry (srv example_registered_state) = Some (DBAccessor (Some 4))
 \<and> map UserInfo_Pass (w_users (world example_registered_state)) = [''secret'']
 \<and> addIdentity example_env (example_identity\<lparr> Pass := ''other'' \<rparr>) False
       example_registered_state
     = (None, example_registered_state
               \<lparr> trace := trace example_registered_state @ [Call_GetUser ''alice''] \<rparr>)
 \<and> loadUsersTable_range example_env
       [example_identity\<lparr> Pass := ''other'' \<rparr>, example_identity] example_registered_state
     = (None, example_registered_state
               \<lparr> trace := trace example_registered_state
                            @ [Call_GetUser ''alice'', Call_GetUser ''alice''] \<rparr>)"
proof -
  have found: "fst (GetUser (Reg example_env) (DBAccessor (Some 4)) ''alice'' []
                      (world example_registered_state)) \<noteq> None"
  proof -
    have "''alice'' \<in> set (map UserInfo_Name (w_users (world example_registered_state)))"
      unfolding example_registered(3) by simp
    then show ?thesis by (simp add: example_env_def example_registry_def)
  qed
  have ids: "ID (example_identity\<lparr> Pass := ''other'' \<rparr>) = ''alice''" "ID example_identity = ''alice''"
    by (simp_all add: example_identity_def)
  have all: "\<forall>i \<in> set [example_identity\<lparr> Pass := ''other'' \<rparr>, example_identity].
               fst (GetUser (Reg example_env) (DBAccessor (Some 4)) (ID i) []
                      (world example_registered_state)) \<noteq> None"
    using found ids by simp
  note main = addIdentity_existing_is_noop
         [OF example_registered(2), of example_env "example_identity\<lparr> Pass := ''other'' \<rparr>"
            "[example_identity\<lparr> Pass := ''other'' \<rparr>, example_identity]"]
  from main found ids have one:
    "addIdentity example_env (example_identity\<lparr> Pass := ''other'' \<rparr>) False
       example_registered_state
     = (None, example_registered_state
               \<lparr> trace := trace example_registered_state @ [Call_GetUser ''alice''] \<rparr>)"
    by (simp del: loadUsersTable_range.simps)
  from main all ids have many:
    "loadUsersTable_range example_env
       [example_identity\<lparr> Pass := ''other'' \<rparr>, example_identity] example_registered_state
     = (None, example_registered_state
               \<lparr> trace := trace example_registered_state
                            @ [Call_GetUser ''alice'', Call_GetUser ''alice''] \<rparr>)"
    by (simp del: loadUsersTable_range.simps)
  show ?thesis using one many example_registered(2,4) by blast
qed

section \<open>Steps that leave the back end alone\<close>

lemma backend_untouched_refl [simp]: "backend_untouched st st"
  by (simp add: backend_untouched_def)

lemma backend_untouched_trans:
  "backend_untouched st st1 \<Longrightarrow> backend_untouched st1 st2 \<Longrightarrow> backend_untouched st st2"
  by (simp add: backend_untouched_def)

lemma initConfig_defaults_keeps [simp]:
  "DB (initConfig_defaults E c) = DB c" "CSP (initConfig_defaults E c) = CSP c"
  by (simp_all add: initConfig_defaults_def Let_def)

lemma initConfig_keeps:
  assumes "Config (srv st) = Some c"
  shows "keeps c st (initConfig E st)"
    and "fst (initConfig E st) = Some (Panic m)
           \<Longrightarrow> fst (factory_InitFactories (Crypto E) (CSP c) (world st)) \<noteq> None"
    and "fst (initConfig E st) \<noteq> Some (Fatal m)"
proof -
  obtain dir gerr where g: "(if HomeDir (srv st) = [] then os_Getwd (OS E) (world st)
               else (HomeDir (srv st), None)) = (dir, gerr)"
    by (cases "(if HomeDir (srv st) = [] then os_Getwd (OS E) (world st)
               else (HomeDir (srv st), None))")
  obtain ferr x where f: "factory_InitFactories (Crypto E) (CSP c) (world st) = (ferr, x)"
    by (cases "factory_InitFactories (Crypto E) (CSP c) (world st)")
  show "keeps c st (initConfig E st)"
    using assms g f
    by (cases gerr; cases ferr)
       (simp_all add: initConfig_def keeps_def backend_untouched_def Let_def)
  show "fst (initConfig E st) = Some (Panic m)
           \<Longrightarrow> fst (factory_InitFactories (Crypto E) (CSP c) (world st)) \<noteq> None"
    using assms g f
    by (cases gerr; cases ferr) (simp_all add: initConfig_def Let_def)
  show "fst (initConfig E st) \<noteq> Some (Fatal m)"
    using assms g f
    by (cases gerr; cases ferr) (simp_all add: initConfig_def Let_def)
qed

lemma makeFileNamesAbsolute_range_DB:
  "DB (snd (makeFileNamesAbsolute_range E home x name_fields c)) = DB c"
  by (simp add: name_fields_def split: sum.splits)

lemma makeFileNamesAbsolute_keeps:
  assumes "Config (srv st) = Some c"
  shows "keeps c st (makeFileNamesAbsolute E st)"
    and "\<not> aborted (fst (makeFileNamesAbsolute E st))"
    and "world (snd (makeFileNamesAbsolute E st)) = world st"
    and "trace (snd (makeFileNamesAbsolute E st)) = trace st"
  using assms
  by (simp_all add: makeFileNamesAbsolute_def keeps_def backend_untouched_def Let_def aborted_def
                 makeFileNamesAbsolute_range_DB
           split: option.splits)

lemma writeFile_keeps:
  assumes "writeFile E file buf m st = (r, st1)"
  shows "srv st1 = srv st"
    and "filter is_backend_call (trace st1) = filter is_backend_call (trace st)"
  using assms
  by (auto simp: writeFile_def Let_def split: option.splits prod.splits)

lemma initKeyMaterial_shape:
  assumes m: "makeFileNamesAbsolute E st = (aerr, st1)"
      and c1: "Config (srv st1) = Some c1" and na: "\<not> aborted aerr"
  shows "srv (snd (initKeyMaterial E renew st)) = srv st1
       \<and> filter is_backend_call (trace (snd (initKeyMaterial E renew st)))
           = filter is_backend_call (trace st1)
       \<and> \<not> aborted (fst (initKeyMaterial E renew st))"
proof (cases "\<not> renew \<and> util_FileExists (OS E) (CA_Keyfile (CA c1)) (world st1)
                \<and> util_FileExists (OS E) (CA_Certfile (CA c1)) (world st1)")
  case True
  then show ?thesis
    using m c1 na by (simp add: initKeyMaterial_def Let_def aborted_def)
next
  case False
  define req where "req = \<lparr> Req_CN = CSR_CN (CSR c1), Req_Names = CSR_Names (CSR c1),
      Req_Hosts = CSR_Hosts (CSR c1), Req_KeyRequest = NewBasicKeyRequest,
      Req_CA = CSR_CA (CSR c1), Req_SerialNumber = CSR_SerialNumber (CSR c1) \<rparr>"
  obtain r x where i: "initca_New (Crypto E) req (world st1) = (r, x)"
    by (cases "initca_New (Crypto E) req (world st1)")
  define st2 where "st2 = called (Call_initca_New req) x st1"
  have st2: "srv st2 = srv st1"
    "filter is_backend_call (trace st2) = filter is_backend_call (trace st1)"
    by (simp_all add: st2_def)
  show ?thesis
  proof (cases r)
    case (Inl err)
    then show ?thesis
      using m c1 na False i st2
      by (simp add: initKeyMaterial_def Let_def aborted_def req_def st2_def)
  next
    case (Inr t)
    obtain cert csr key where t: "t = (cert, csr, key)" by (cases t) auto
    obtain e1 st3 where w1: "writeFile E (CA_Keyfile (CA c1)) key (perm 6 0 0) st2 = (e1, st3)"
      by (cases "writeFile E (CA_Keyfile (CA c1)) key (perm 6 0 0) st2")
    obtain e2 st4 where w2: "writeFile E (CA_Certfile (CA c1)) cert (perm 6 4 4) st3 = (e2, st4)"
      by (cases "writeFile E (CA_Certfile (CA c1)) cert (perm 6 4 4) st3")
    note k = writeFile_keeps [OF w1] writeFile_keeps [OF w2]
    show ?thesis
      using m c1 na False i Inr t w1 w2 k st2
      by (cases e1; cases e2)
         (simp_all add: initKeyMaterial_def Let_def aborted_def req_def [symmetric]
                        st2_def [symmetric])
  qed
qed

lemma initKeyMaterial_keeps:
  assumes "Config (srv st) = Some c"
  shows "keeps c st (initKeyMaterial E renew st)"
    and "\<not> aborted (fst (initKeyMaterial E renew st))"
proof -
  obtain aerr st1 where m: "makeFileNamesAbsolute E st = (aerr, st1)"
    by (cases "makeFileNamesAbsolute E st")
  from makeFileNamesAbsolute_keeps [OF assms, of E] m
  have k1: "backend_untouched st st1" and na: "\<not> aborted aerr"
    and "\<exists>c1. Config (srv st1) = Some c1 \<and> DB c1 = DB c"
    by (auto simp: keeps_def)
  then obtain c1 where c1: "Config (srv st1) = Some c1" "DB c1 = DB c" by blast
  from initKeyMaterial_shape [OF m c1(1) na, of renew]
  show "keeps c st (initKeyMaterial E renew st)" "\<not> aborted (fst (initKeyMaterial E renew st))"
    using k1 c1 by (auto simp: keeps_def backend_untouched_def)
qed

section \<open>Opening the database\<close>

lemma opened_shape:
  "trace (snd (opened ty ds r st)) = trace st @ [Call_NewUserRegistry ty ds]"
  "Config (srv (snd (opened ty ds r st))) = Config (srv st)"
  by (simp_all add: opened_def Let_def split: option.splits)

lemma initDB_switch_shape:
  "filter is_registry_call (trace (snd (initDB_switch E d st)))
     = filter is_registry_call (trace st)"
  "Config (srv (snd (initDB_switch E d st))) = Config (srv st)"
  by (simp_all add: initDB_switch_def opened_shape)

lemma initDB_switch_result:
  assumes "initDB_switch E d st = (r, st1)"
  shows "filter is_registry_call (trace st1) = filter is_registry_call (trace st)"
  using initDB_switch_shape(1) [of E d st] assms by simp

lemma initDB_open_registry_calls:
  "filter is_registry_call (trace (snd (initDB_open E st))) = filter is_registry_call (trace st)"
proof (cases "Config (srv st)")
  case None
  then show ?thesis by (simp add: initDB_open_def)
next
  case (Some c)
  then show ?thesis
    by (auto simp: initDB_open_def Let_def dest: initDB_switch_result
             split: option.splits prod.splits sum.splits)
qed

lemma initDB_open_invalid:
  assumes "Config (srv st) = Some c"
      and "DB_Type (DB c) \<notin> {[], ''sqlite3'', ''postgres'', ''mysql''}"
  shows "\<exists>msg. fst (initDB_open E st) = Inl (Error msg)"
    and "backend_untouched st (snd (initDB_open E st))"
    and "world (snd (initDB_open E st)) = world st"
    and "trace (snd (initDB_open E st)) = trace st"
  using assms
  by (cases "DB_Datasource (DB c) = []";
      cases "util_MakeFileAbs (OS E) ''fabric-ca-server.db'' (HomeDir (srv st)) (world st)";
      simp add: initDB_open_def initDB_switch_def Let_def backend_untouched_def)+

lemma initDB_invalid:
  assumes "Config (srv st) = Some c"
      and "DB_Type (DB c) \<notin> {[], ''sqlite3'', ''postgres'', ''mysql''}"
  shows "\<exists>msg. initDB E st = (Some (Error msg), snd (initDB_open E st))"
  using initDB_open_invalid(1) [OF assms, of E]
  by (cases "initDB_open E st") (auto simp: initDB_def)

section \<open>An invalid database type\<close>

lemma Init_invalid:
  assumes c: "Config (srv st) = Some c"
      and ty: "DB_Type (DB c) \<notin> {[], ''sqlite3'', ''postgres'', ''mysql''}"
  shows "\<exists>e. fst (Init E renew st) = Some e \<and> (\<forall>m. e \<noteq> Fatal m) \<and>
              ((\<exists>m. e = Panic m) \<longrightarrow>
                 fst (factory_InitFactories (Crypto E) (CSP c) (world st)) \<noteq> None)"
    and "backend_untouched st (snd (Init E renew st))"
proof -
  obtain r1 st1 where i1: "initConfig E st = (r1, st1)" by (cases "initConfig E st")
  from initConfig_keeps [OF c, of E] i1
  have k1: "backend_untouched st st1" and "\<exists>c1. Config (srv st1) = Some c1 \<and> DB c1 = DB c"
    and p1: "\<And>m. r1 = Some (Panic m)
               \<Longrightarrow> fst (factory_InitFactories (Crypto E) (CSP c) (world st)) \<noteq> None"
    and f1: "\<And>m. r1 \<noteq> Some (Fatal m)"
    by (auto simp: keeps_def)
  then obtain c1 where c1: "Config (srv st1) = Some c1" "DB c1 = DB c" by blast
  define st1' where
    "st1' = st1\<lparr> glob := (glob st1)\<lparr> MyCSP := factory_GetDefault (Crypto E) (world st1) \<rparr> \<rparr>"
  have c1': "Config (srv st1') = Some c1" and k1': "backend_untouched st1 st1'"
    using c1 by (simp_all add: st1'_def backend_untouched_def)
  obtain r2 st2 where i2: "initKeyMaterial E renew st1' = (r2, st2)"
    by (cases "initKeyMaterial E renew st1'")
  from initKeyMaterial_keeps [OF c1', of E renew] i2
  have k2: "backend_untouched st1' st2" and "\<exists>c2. Config (srv st2) = Some c2 \<and> DB c2 = DB c1"
    and a2: "\<not> aborted r2"
    by (auto simp: keeps_def)
  then obtain c2 where c2: "Config (srv st2) = Some c2" "DB c2 = DB c1" by blast
  have ty2: "DB_Type (DB c2) \<notin> {[], ''sqlite3'', ''postgres'', ''mysql''}"
    using ty c1 c2 by simp
  define st3 where "st3 = snd (initDB_open E st2)"
  from initDB_invalid [OF c2(1) ty2, of E]
  obtain msg where i3: "initDB E st2 = (Some (Error msg), st3)"
    by (auto simp: st3_def)
  have k3: "backend_untouched st2 st3"
    using initDB_open_invalid(2) [OF c2(1) ty2, of E] by (simp add: st3_def)
  have I: "Init E renew st =
             (case r1 of Some e \<Rightarrow> (Some e, st1)
              | None \<Rightarrow> (case r2 of Some e \<Rightarrow> (Some e, st2)
                         | None \<Rightarrow> (Some (Error msg), st3)))"
    using i1 i2 i3 by (simp add: Init_def st1'_def split: option.splits)
  show "\<exists>e. fst (Init E renew st) = Some e \<and> (\<forall>m. e \<noteq> Fatal m) \<and>
              ((\<exists>m. e = Panic m) \<longrightarrow>
                 fst (factory_InitFactories (Crypto E) (CSP c) (world st)) \<noteq> None)"
    using p1 f1 a2 by (auto simp: I aborted_def split: option.splits error.splits)
  show "backend_untouched st (snd (Init E renew st))"
    using k1 k1' k2 k3 by (auto simp: I backend_untouched_def split: option.splits)
qed

lemma initConfig_panics:
  assumes c: "Config (srv st) = Some c"
      and f: "fst (factory_InitFactories (Crypto E) (CSP c) (world st)) = Some m"
      and h: "HomeDir (srv st) = [] \<longrightarrow> snd (os_Getwd (OS E) (world st)) = None"
  shows "fst (initConfig E st)
           = Some (Panic (''Could not initialize BCCSP Factories ['' @ m @ '']''))"
proof -
  obtain dir where g: "(if HomeDir (srv st) = [] then os_Getwd (OS E) (world st)
               else (HomeDir (srv st), None)) = (dir, None)"
    using h
    by (cases "(if HomeDir (srv st) = [] then os_Getwd (OS E) (world st)
               else (HomeDir (srv st), None))") (auto split: if_splits)
  obtain x where f': "factory_InitFactories (Crypto E) (CSP c) (world st) = (Some m, x)"
    using f by (cases "factory_InitFactories (Crypto E) (CSP c) (world st)") simp
  show ?thesis
    using c g f' by (simp add: initConfig_def Let_def)
qed

lemma Init_panics:
  assumes c: "Config (srv st) = Some c"
      and f: "fst (factory_InitFactories (Crypto E) (CSP c) (world st)) = Some m"
      and h: "HomeDir (srv st) = [] \<longrightarrow> snd (os_Getwd (OS E) (world st)) = None"
  shows "fst (Init E renew st)
           = Some (Panic (''Could not initialize BCCSP Factories ['' @ m @ '']''))"
proof -
  have "Init E renew st = initConfig E st"
    unfolding Init_def by (rule and_then_failed) (rule initConfig_panics [OF c f h])
  then show ?thesis using initConfig_panics [OF c f h] by simp
qed

lemma Start_panics:
  assumes c: "Config (srv st) = Some c"
      and f: "fst (factory_InitFactories (Crypto E) (CSP c) (world st)) = Some m"
      and h: "HomeDir (srv st) = [] \<longrightarrow> snd (os_Getwd (OS E) (world st)) = None"
      and l: "listener (srv st) = None"
  shows "fst (Start E st)
           = Some (Panic (''Could not initialize BCCSP Factories ['' @ m @ '']''))"
proof -
  let ?st0 = "st\<lparr> srv := (srv st)\<lparr> serveError := None \<rparr> \<rparr>"
  have i: "fst (Init E False ?st0)
             = Some (Panic (''Could not initialize BCCSP Factories ['' @ m @ '']''))"
    by (rule Init_panics) (use c f h in \<open>simp_all\<close>)
  have "Start E st = Init E False ?st0"
    using l and_then_failed [OF i] by (simp add: Start_def Let_def)
  then show ?thesis using i by simp
qed

text \<open>
  C6.  When the configured database type is none of \<^verbatim>\<open>""\<close> (which stands for
  \<^verbatim>\<open>sqlite3\<close>), \<^verbatim>\<open>sqlite3\<close>, \<^verbatim>\<open>postgres\<close> and \<^verbatim>\<open>mysql\<close>: \<^verbatim>\<open>initDB\<close> returns an
  error and makes no call at all; \<^verbatim>\<open>Init\<close> and \<^verbatim>\<open>Start\<close> do not succeed either, and
  no database is opened, no registry and no certificate store is set up on the way
  (\<open>backend_untouched\<close>).  Their outcome is a returned error whenever the BCCSP factories
  initialise.  When they do not (and the home directory is known), \<^verbatim>\<open>initConfig\<close> panics
  before the database type is looked at, and \<^verbatim>\<open>Init\<close> and \<^verbatim>\<open>Start\<close> end in that panic
  instead of returning an error.
\<close>

theorem invalid_db_type_aborts_startup:
  assumes "Config (srv st) = Some c"
      and "DB_Type (DB c) \<notin> {[], ''sqlite3'', ''postgres'', ''mysql''}"
  shows "(\<exists>msg. fst (initDB E st) = Some (Error msg))
       \<and> backend_untouched st (snd (initDB E st))
       \<and> world (snd (initDB E st)) = world st \<and> trace (snd (initDB E st)) = trace st
       \<and> (\<exists>e. fst (Init E renew st) = Some e) \<and> backend_untouched st (snd (Init E renew st))
       \<and> (\<exists>e. fst (Start E st) = Some e) \<and> backend_untouched st (snd (Start E st))
       \<and> (fst (factory_InitFactories (Crypto E) (CSP c) (world st)) = None \<longrightarrow>
            (\<exists>msg. fst (Init E renew st) = Some (Error msg))
          \<and> (\<exists>msg. fst (Start E st) = Some (Error msg)))
       \<and> (fst (factory_InitFactories (Crypto E) (CSP c) (world st)) = Some m
            \<and> (HomeDir (srv st) = [] \<longrightarrow> snd (os_Getwd (OS E) (world st)) = None) \<longrightarrow>
            fst (Init E renew st)
              = Some (Panic (''Could not initialize BCCSP Factories ['' @ m @ '']''))
          \<and> (listener (srv st) = None \<longrightarrow>
                fst (Start E st)
                  = Some (Panic (''Could not initialize BCCSP Factories ['' @ m @ '']''))))"
proof -
  from initDB_invalid [OF assms, of E] initDB_open_invalid(2-4) [OF assms, of E]
  have db: "(\<exists>msg. fst (initDB E st) = Some (Error msg))
       \<and> backend_untouched st (snd (initDB E st))
       \<and> world (snd (initDB E st)) = world st \<and> trace (snd (initDB E st)) = trace st"
    by auto
  define st0 where "st0 = st\<lparr> srv := (srv st)\<lparr> serveError := None \<rparr> \<rparr>"
  have c0: "Config (srv st0) = Some c" and w0: "world st0 = world st"
    and k0: "backend_untouched st st0"
    using assms(1) by (simp_all add: st0_def backend_untouched_def)
  note i = Init_invalid [OF assms, of E renew]
  note i0 = Init_invalid [OF c0 assms(2), of E False]
  have S: "Start E st = (if listener (srv st0) \<noteq> None
                         then (Some (Error ''server is already started''), st0)
                         else (fst (Init E False st0), snd (Init E False st0)))"
  proof -
    from i0(1) obtain e where "fst (Init E False st0) = Some e" by blast
    then show ?thesis
      by (cases "Init E False st0")
         (simp add: Start_def Let_def st0_def [symmetric] and_then_failed)
  qed
  have panics: "fst (factory_InitFactories (Crypto E) (CSP c) (world st)) = Some m
            \<and> (HomeDir (srv st) = [] \<longrightarrow> snd (os_Getwd (OS E) (world st)) = None) \<longrightarrow>
            fst (Init E renew st)
              = Some (Panic (''Could not initialize BCCSP Factories ['' @ m @ '']''))
          \<and> (listener (srv st) = None \<longrightarrow>
                fst (Start E st)
                  = Some (Panic (''Could not initialize BCCSP Factories ['' @ m @ '']'')))"
    using Init_panics [OF assms(1), of E m renew] Start_panics [OF assms(1), of E m]
    by blast
  have "\<exists>e. fst (Start E st) = Some e" using i0(1) by (auto simp: S)
  moreover have "backend_untouched st (snd (Start E st))"
    using i0(2) k0 by (auto simp: S backend_untouched_def)
  moreover have "\<exists>msg. fst (Init E renew st) = Some (Error msg)"
    if "fst (factory_InitFactories (Crypto E) (CSP c) (world st)) = None"
    using i(1) that by (metis error.exhaust)
  moreover have "\<exists>msg. fst (Start E st) = Some (Error msg)"
    if "fst (factory_InitFactories (Crypto E) (CSP c) (world st)) = None"
  proof -
    have "\<exists>msg. fst (Init E False st0) = Some (Error msg)"
      using i0(1) that w0 by (metis error.exhaust)
    then show ?thesis by (auto simp: S)
  qed
  ultimately have "(\<exists>msg. fst (initDB E st) = Some (Error msg))
       \<and> backend_untouched st (snd (initDB E st))
       \<and> world (snd (initDB E st)) = world st \<and> trace (snd (initDB E st)) = trace st
       \<and> (\<exists>e. fst (Init E renew st) = Some e) \<and> backend_untouched st (snd (Init E renew st))
       \<and> (\<exists>e. fst (Start E st) = Some e) \<and> backend_untouched st (snd (Start E st))
       \<and> (fst (factory_InitFactories (Crypto E) (CSP c) (world st)) = None \<longrightarrow>
            (\<exists>msg. fst (Init E renew st) = Some (Error msg))
          \<and> (\<exists>msg. fst (Start E st) = Some (Error msg)))"
    using db i by blast
  with panics show ?thesis by simp
qed

theorem invalid_db_type_aborts_startup_witness:
  "Config (srv (example_sys (with_db_type ''oracle'' example_config) empty_world))
     = Some (with_db_type ''oracle'' example_config)
 \<and> DB_Type (DB (with_db_type ''oracle'' example_config)) = ''oracle''
 \<and> (\<exists>msg. fst (initDB example_env
                  (example_sys (with_db_type ''oracle'' example_config) empty_world))
            = Some (Error msg))
 \<and> (\<exists>msg. fst (Init example_env False
                  (example_sys (with_db_type ''oracle'' example_config) empty_world))
            = Some (Error msg))
 \<and> (\<exists>msg. fst (Start example_env
                  (example_sys (with_db_type ''oracle'' example_config) empty_world))
            = Some (Error msg))
 \<and> backend_untouched (example_sys (with_db_type ''oracle'' example_config) empty_world)
       (snd (Start example_env
               (example_sys (with_db_type ''oracle'' example_config) empty_world)))
 \<and> fst (factory_InitFactories (Crypto failing_csp_env)
          (CSP (with_db_type ''oracle'' example_config))
          (world (example_sys (with_db_type ''oracle'' example_config) empty_world)))
     = Some ''Failed initializing BCCSP.''
 \<and> HomeDir (srv (example_sys (with_db_type ''oracle'' example_config) empty_world)) = ''/ca''
 \<and> listener (srv (example_sys (with_db_type ''oracle'' example_config) empty_world)) = None
 \<and> fst (Init failing_csp_env False
          (example_sys (with_db_type ''oracle'' example_config) empty_world))
     = Some (Panic ''Could not initialize BCCSP Factories [Failed initializing BCCSP.]'')
 \<and> fst (Start failing_csp_env
          (example_sys (with_db_type ''oracle'' example_config) empty_world))
     = Some (Panic ''Could not initialize BCCSP Factories [Failed initializing BCCSP.]'')"
proof -
  let ?c = "with_db_type ''oracle'' example_config"
  let ?st = "example_sys ?c empty_world"
  have c: "Config (srv ?st) = Some ?c"
    by (simp add: example_sys_def example_server_def)
  have ty: "DB_Type (DB ?c) = ''oracle''" by (simp add: with_db_type_def)
  have ty': "DB_Type (DB ?c) \<notin> {'''', ''sqlite3'', ''postgres'', ''mysql''}"
    by (simp add: ty)
  have f: "fst (factory_InitFactories (Crypto example_env) (CSP ?c) (world ?st)) = None"
    by (simp add: example_env_def example_crypto_def)
  have f2: "fst (factory_InitFactories (Crypto failing_csp_env) (CSP ?c) (world ?st))
              = Some ''Failed initializing BCCSP.''"
    by (simp add: failing_csp_env_def)
  have home: "HomeDir (srv ?st) = ''/ca''" and l: "listener (srv ?st) = None"
    by (simp_all add: example_sys_def example_server_def)
  have home': "HomeDir (srv ?st) = [] \<longrightarrow> snd (os_Getwd (OS failing_csp_env) (world ?st)) = None"
    by (simp add: home)
  from invalid_db_type_aborts_startup [OF c ty', of example_env False] f c ty
  have one: "(\<exists>msg. fst (initDB example_env ?st) = Some (Error msg))
     \<and> (\<exists>msg. fst (Init example_env False ?st) = Some (Error msg))
     \<and> (\<exists>msg. fst (Start example_env ?st) = Some (Error msg))
     \<and> backend_untouched ?st (snd (Start example_env ?st))"
    by simp
  from invalid_db_type_aborts_startup
         [OF c ty', where E = failing_csp_env and renew = False
            and m = "''Failed initializing BCCSP.''"] f2 home' l
  have two: "fst (Init failing_csp_env False ?st)
       = Some (Panic (''Could not initialize BCCSP Factories ['' @ ''Failed initializing BCCSP.''
                      @ '']''))
     \<and> fst (Start failing_csp_env ?st)
       = Some (Panic (''Could not initialize BCCSP Factories ['' @ ''Failed initializing BCCSP.''
                      @ '']''))"
    by blast
  from one two c ty f2 home l show ?thesis by simp
qed

text \<open>
  The outcome is not a returned error in every case.  With the database type
  \<^verbatim>\<open>oracle\<close> and BCCSP factories that cannot be initialised, \<^verbatim>\<open>initConfig\<close> panics, and
  \<^verbatim>\<open>Init\<close> and \<^verbatim>\<open>Start\<close> with it, before \<^verbatim>\<open>initDB\<close> is reached.
\<close>

theorem invalid_db_type_panic_counterexample:
  "Config (srv (example_sys (with_db_type ''oracle'' example_config) empty_world))
     = Some (with_db_type ''oracle'' example_config)
 \<and> DB_Type (DB (with_db_type ''oracle'' example_config)) = ''oracle''
 \<and> fst (Init failing_csp_env False
          (example_sys (with_db_type ''oracle'' example_config) empty_world))
     = Some (Panic ''Could not initialize BCCSP Factories [Failed initializing BCCSP.]'')
 \<and> fst (Start failing_csp_env
          (example_sys (with_db_type ''oracle'' example_config) empty_world))
     = Some (Panic ''Could not initialize BCCSP Factories [Failed initializing BCCSP.]'')"
  by (simp add: Start_def Init_def initConfig_def initConfig_defaults_def failing_csp_env_def
        with_db_type_def example_defs called_def Let_def)

section \<open>Bootstrap of the database\<close>

lemma initUserRegistry_frame:
  "world (snd (initUserRegistry E (st\<lparr> srv := (srv st)\<lparr> certDBAccessor := a \<rparr>, glob := g \<rparr>)))
     = world (snd (initUserRegistry E st))"
  "fst (initUserRegistry E (st\<lparr> srv := (srv st)\<lparr> certDBAccessor := a \<rparr>, glob := g \<rparr>))
     = fst (initUserRegistry E st)"
  "trace (snd (initUserRegistry E (st\<lparr> srv := (srv st)\<lparr> certDBAccessor := a \<rparr>, glob := g \<rparr>)))
     = trace (snd (initUserRegistry E st))"
  by (simp_all add: initUserRegistry_def Let_def split: option.splits prod.splits)

lemma initUserRegistry_registry_calls:
  "filter is_registry_call (trace (snd (initUserRegistry E st)))
     = filter is_registry_call (trace st)"
  by (simp add: initUserRegistry_def Let_def split: option.splits prod.splits)

lemma initDB_bootstrap_existing:
  "initDB_bootstrap E d True st =
     and_then
       (initUserRegistry E
          (st\<lparr> srv := (srv st)\<lparr> certDBAccessor := Some (NewCertDBAccessor (Dbutil E) (db (srv st))) \<rparr>,
               glob := (glob st)\<lparr> MyCertDBAccessor :=
                                      Some (NewCertDBAccessor (Dbutil E) (db (srv st))) \<rparr> \<rparr>))
       (\<lambda>st3. (None, logf LevelInfo (''Initialized '' @ DB_Type d @ '' data base at '' @
                                      DB_Datasource d) st3))"
  by (simp add: initDB_bootstrap_def Let_def)

lemma and_then_log:
  "fst (and_then r (\<lambda>st3. (None, logf l m st3))) = fst r"
  "world (snd (and_then r (\<lambda>st3. (None, logf l m st3)))) = world (snd r)"
  "trace (snd (and_then r (\<lambda>st3. (None, logf l m st3)))) = trace (snd r)"
  by (cases r; cases "fst r"; simp)+

text \<open>
  C10.  When the database that \<^verbatim>\<open>initDB\<close> opens is reported to exist already,
  \<^verbatim>\<open>initDB\<close> makes no call to the user registry (no \<^verbatim>\<open>GetUser\<close>, \<^verbatim>\<open>InsertUser\<close> or
  \<^verbatim>\<open>InsertGroup\<close>): its outcome and the outside world are those that the set-up of the
  registry handle leaves, whatever identities and affiliations the configuration lists.
  Conversely, a run of \<^verbatim>\<open>initDB\<close> that makes a registry call has opened a database that
  did not exist before.
\<close>

theorem initDB_bootstraps_only_a_new_database:
  "(initDB_open E st = (Inr (True, d), st1) \<longrightarrow>
        filter is_registry_call (trace (snd (initDB E st))) = filter is_registry_call (trace st)
      \<and> world (snd (initDB E st)) = world (snd (initUserRegistry E st1))
      \<and> fst (initDB E st) = fst (initUserRegistry E st1))
 \<and> (filter is_registry_call (trace (snd (initDB E st))) \<noteq> filter is_registry_call (trace st) \<longrightarrow>
      (\<exists>d st1. initDB_open E st = (Inr (False, d), st1)))"
proof -
  have existing:
    "filter is_registry_call (trace (snd (initDB E st))) = filter is_registry_call (trace st)
      \<and> world (snd (initDB E st)) = world (snd (initUserRegistry E st1))
      \<and> fst (initDB E st) = fst (initUserRegistry E st1)"
    if o: "initDB_open E st = (Inr (True, d), st1)" for d st1
  proof -
    have "filter is_registry_call (trace st1) = filter is_registry_call (trace st)"
      using initDB_open_registry_calls [of E st] o by simp
    then show ?thesis
      using o initUserRegistry_registry_calls [of E st1]
      by (simp add: initDB_def initDB_bootstrap_existing and_then_log initUserRegistry_frame)
  qed
  have only: "\<exists>d st1. initDB_open E st = (Inr (False, d), st1)"
    if n: "filter is_registry_call (trace (snd (initDB E st))) \<noteq> filter is_registry_call (trace st)"
  proof (cases "initDB_open E st")
    case (Pair r st1)
    show ?thesis
    proof (cases r)
      case (Inl e)
      then have "initDB E st = (Some e, st1)" using Pair by (simp add: initDB_def)
      then show ?thesis using n initDB_open_registry_calls [of E st] Pair by simp
    next
      case (Inr p)
      then obtain exists d where p: "p = (exists, d)" by (cases p) auto
      show ?thesis
      proof (cases exists)
        case True
        then show ?thesis using existing [of d st1] Pair Inr p n by simp
      next
        case False
        then show ?thesis using Pair Inr p by simp
      qed
    qed
  qed
  show ?thesis using existing only by blast
qed

lemma example_restart_opens:
  "fst (initDB_open example_env example_restart) = Inr (True, DB example_bootstrap_config)"
  "w_users (world (snd (initUserRegistry example_env (snd (initDB_open example_env example_restart)))))
     = []"
  "w_groups (world (snd (initUserRegistry example_env (snd (initDB_open example_env example_restart)))))
     = []"
  "fst (initUserRegistry example_env (snd (initDB_open example_env example_restart))) = None"
  "trace example_restart = []"
  by (simp_all add: example_restart_def example_bootstrap_config_def existing_db_world_def
        example_defs initDB_open_def initDB_switch_def opened_def initUserRegistry_def
        called_def Let_def)

theorem initDB_bootstraps_only_a_new_database_witness:
  "fst (initDB_open example_env example_restart) = Inr (True, DB example_bootstrap_config)
 \<and> Registry_Identities (Registry example_bootstrap_config) = [example_identity]
 \<and> fst (initDB example_env example_restart) = None
 \<and> filter is_registry_call (trace (snd (initDB example_env example_restart))) = []
 \<and> w_users (world (snd (initDB example_env example_restart))) = []
 \<and> w_groups (world (snd (initDB example_env example_restart))) = []"
proof -
  have o: "initDB_open example_env example_restart
             = (Inr (True, DB example_bootstrap_config),
                snd (initDB_open example_env example_restart))"
    using example_restart_opens(1) by (cases "initDB_open example_env example_restart") simp
  have ids: "Registry_Identities (Registry example_bootstrap_config) = [example_identity]"
    by (simp add: example_bootstrap_config_def)
  from initDB_bootstraps_only_a_new_database
         [of example_env example_restart "DB example_bootstrap_config"
             "snd (initDB_open example_env example_restart)"] o
  have "filter is_registry_call (trace (snd (initDB example_env example_restart)))
          = filter is_registry_call (trace example_restart)"
    and "world (snd (initDB example_env example_restart))
          = world (snd (initUserRegistry example_env (snd (initDB_open example_env example_restart))))"
    and "fst (initDB example_env example_restart)
          = fst (initUserRegistry example_env (snd (initDB_open example_env example_restart)))"
    by blast+
  then show ?thesis using example_restart_opens ids by simp
qed

section \<open>Key material that exists already\<close>

text \<open>
  C3.  Without renewal, when the CA key file and the CA certificate file of the
  configuration (their names made absolute, as \<^verbatim>\<open>initKeyMaterial\<close> does first) both
  exist, \<^verbatim>\<open>initKeyMaterial\<close> returns \<^verbatim>\<open>nil\<close> and makes no call: nothing is generated,
  no directory is made, no file is written, and the outside world (so both files) is as
  it was.  A second run therefore changes nothing.
\<close>

theorem initKeyMaterial_idempotent:
  assumes "Config (srv (snd (makeFileNamesAbsolute E st))) = Some c"
      and "util_FileExists (OS E) (CA_Keyfile (CA c)) (world st)"
      and "util_FileExists (OS E) (CA_Certfile (CA c)) (world st)"
  shows "fst (initKeyMaterial E False st) = None
       \<and> world (snd (initKeyMaterial E False st)) = world st
       \<and> trace (snd (initKeyMaterial E False st)) = trace st
       \<and> srv (snd (initKeyMaterial E False st)) = srv (snd (makeFileNamesAbsolute E st))
       \<and> glob (snd (initKeyMaterial E False st)) = glob st"
proof -
  obtain aerr st1 where m: "makeFileNamesAbsolute E st = (aerr, st1)"
    by (cases "makeFileNamesAbsolute E st")
  have some: "Config (srv st) \<noteq> None"
    using assms(1) by (auto simp: makeFileNamesAbsolute_def split: option.splits)
  then obtain c0 where c0: "Config (srv st) = Some c0" by blast
  from makeFileNamesAbsolute_keeps(2-4) [OF c0, of E] m
  have na: "\<not> aborted aerr" and w: "world st1 = world st" and t: "trace st1 = trace st"
    by simp_all
  have g: "glob st1 = glob st"
    using m c0 by (auto simp: makeFileNamesAbsolute_def Let_def)
  show ?thesis
    using m na w t g assms
    by (simp add: initKeyMaterial_def Let_def)
qed

lemma example_first_run_facts:
  "fst (initKeyMaterial example_env False (example_sys example_config empty_world)) = None"
  "Config (srv (snd (makeFileNamesAbsolute example_env example_first_run))) = Some example_config"
  "map fst (w_files (world example_first_run)) = [''/ca/ca-cert.pem'', ''/ca/ca-key.pem'']"
  "write_modes ''/ca/ca-key.pem'' (trace example_first_run) = [perm 6 0 0]"
  by (simp_all add: example_first_run_def example_defs initKeyMaterial_def
        makeFileNamesAbsolute_def name_fields_def writeFile_def aborted_def
        called_def logf_def Let_def)

theorem initKeyMaterial_idempotent_witness:
  "fst (initKeyMaterial example_env False (example_sys example_config empty_world)) = None
 \<and> map fst (w_files (world example_first_run)) = [''/ca/ca-cert.pem'', ''/ca/ca-key.pem'']
 \<and> fst (initKeyMaterial example_env False example_first_run) = None
 \<and> world (snd (initKeyMaterial example_env False example_first_run)) = world example_first_run
 \<and> trace (snd (initKeyMaterial example_env False example_first_run)) = trace example_first_run"
proof -
  have k: "util_FileExists (OS example_env) (CA_Keyfile (CA example_config)) (world example_first_run)"
    and c: "util_FileExists (OS example_env) (CA_Certfile (CA example_config)) (world example_first_run)"
    using example_first_run_facts(3)
    by (auto simp: example_env_def example_os_def example_config_def map_of_eq_None_iff)
  from initKeyMaterial_idempotent [OF example_first_run_facts(2) k c] example_first_run_facts(1,3)
  show ?thesis by simp
qed

section \<open>The mode of the key file\<close>

lemma write_modes_append: "write_modes f (a @ b) = write_modes f a @ write_modes f b"
  by (induction f a rule: write_modes.induct) auto

lemma writeFile_modes:
  assumes "writeFile E file buf m st = (r, st1)"
  shows "\<exists>new. trace st1 = trace st @ new
           \<and> set (write_modes f new) \<subseteq> (if f = file then {m} else {})"
proof -
  obtain err x where mk: "os_MkdirAll (OS E) (filepath_Dir (OS E) file) m (world st) = (err, x)"
    by (cases "os_MkdirAll (OS E) (filepath_Dir (OS E) file) m (world st)")
  obtain werr x1 where wr: "ioutil_WriteFile (OS E) file buf m x = (werr, x1)"
    by (cases "ioutil_WriteFile (OS E) file buf m x")
  show ?thesis
  proof (cases err)
    case None
    then have "trace st1 = trace st @ [Call_MkdirAll (filepath_Dir (OS E) file) m None,
                                        Call_WriteFile file buf m werr]"
      using assms mk wr by (auto simp: writeFile_def Let_def)
    then show ?thesis by auto
  next
    case (Some msg)
    then have "trace st1 = trace st @ [Call_MkdirAll (filepath_Dir (OS E) file) m (Some msg)]"
      using assms mk by (auto simp: writeFile_def Let_def)
    then show ?thesis by auto
  qed
qed

lemma initKeyMaterial_key_mode:
  assumes c1: "Config (srv (snd (makeFileNamesAbsolute E st))) = Some c1"
      and ne: "CA_Keyfile (CA c1) \<noteq> CA_Certfile (CA c1)"
  shows "\<exists>new. trace (snd (initKeyMaterial E renew st)) = trace st @ new
           \<and> set (write_modes (CA_Keyfile (CA c1)) new) \<subseteq> {perm 6 0 0}"
proof -
  obtain aerr st1 where m: "makeFileNamesAbsolute E st = (aerr, st1)"
    by (cases "makeFileNamesAbsolute E st")
  have "Config (srv st) \<noteq> None"
    using c1 by (auto simp: makeFileNamesAbsolute_def split: option.splits)
  then obtain c0 where c0: "Config (srv st) = Some c0" by blast
  from makeFileNamesAbsolute_keeps(2,4) [OF c0, of E] m
  have na: "\<not> aborted aerr" and t1: "trace st1 = trace st" by simp_all
  have c1': "Config (srv st1) = Some c1" using c1 m by simp
  show ?thesis
  proof (cases "\<not> renew \<and> util_FileExists (OS E) (CA_Keyfile (CA c1)) (world st1)
                  \<and> util_FileExists (OS E) (CA_Certfile (CA c1)) (world st1)")
    case True
    then have "trace (snd (initKeyMaterial E renew st)) = trace st @ []"
      using m c1' na t1 by (simp add: initKeyMaterial_def Let_def)
    then show ?thesis by (intro exI [of _ "[]"]) simp
  next
    case False
    define req where "req = \<lparr> Req_CN = CSR_CN (CSR c1), Req_Names = CSR_Names (CSR c1),
        Req_Hosts = CSR_Hosts (CSR c1), Req_KeyRequest = NewBasicKeyRequest,
        Req_CA = CSR_CA (CSR c1), Req_SerialNumber = CSR_SerialNumber (CSR c1) \<rparr>"
    obtain r x where i: "initca_New (Crypto E) req (world st1) = (r, x)"
      by (cases "initca_New (Crypto E) req (world st1)")
    define st2 where "st2 = called (Call_initca_New req) x st1"
    have t2: "trace st2 = trace st @ [Call_initca_New req]"
      by (simp add: st2_def t1)
    show ?thesis
    proof (cases r)
      case (Inl err)
      then have "trace (snd (initKeyMaterial E renew st)) = trace st2"
        using m c1' na False i
        by (simp add: initKeyMaterial_def Let_def req_def st2_def)
      then show ?thesis using t2 by simp
    next
      case (Inr t)
      obtain cert csr key where t: "t = (cert, csr, key)" by (cases t) auto
      obtain e1 st3 where w1: "writeFile E (CA_Keyfile (CA c1)) key (perm 6 0 0) st2 = (e1, st3)"
        by (cases "writeFile E (CA_Keyfile (CA c1)) key (perm 6 0 0) st2")
      obtain e2 st4 where w2: "writeFile E (CA_Certfile (CA c1)) cert (perm 6 4 4) st3 = (e2, st4)"
        by (cases "writeFile E (CA_Certfile (CA c1)) cert (perm 6 4 4) st3")
      from writeFile_modes [OF w1, of "CA_Keyfile (CA c1)"] obtain n1 where
        n1: "trace st3 = trace st2 @ n1" "set (write_modes (CA_Keyfile (CA c1)) n1) \<subseteq> {perm 6 0 0}"
        by auto
      from writeFile_modes [OF w2, of "CA_Keyfile (CA c1)"] ne obtain n2 where
        n2: "trace st4 = trace st3 @ n2" "write_modes (CA_Keyfile (CA c1)) n2 = []"
        by auto
      have "trace (snd (initKeyMaterial E renew st)) = trace st3
          \<or> trace (snd (initKeyMaterial E renew st)) = trace st4"
        using m c1' na False i Inr t w1 w2
        by (cases e1; cases e2)
           (auto simp: initKeyMaterial_def Let_def req_def [symmetric] st2_def [symmetric])
      then show ?thesis
      proof
        assume "trace (snd (initKeyMaterial E renew st)) = trace st3"
        then have "trace (snd (initKeyMaterial E renew st)) = trace st @ (Call_initca_New req # n1)"
          using n1 t2 by simp
        moreover have "set (write_modes (CA_Keyfile (CA c1)) (Call_initca_New req # n1))
                         \<subseteq> {perm 6 0 0}"
          using n1 by simp
        ultimately show ?thesis by blast
      next
        assume "trace (snd (initKeyMaterial E renew st)) = trace st4"
        then have "trace (snd (initKeyMaterial E renew st))
                     = trace st @ (Call_initca_New req # n1 @ n2)"
          using n1 n2 t2 by simp
        moreover have "set (write_modes (CA_Keyfile (CA c1)) (Call_initca_New req # n1 @ n2))
                         \<subseteq> {perm 6 0 0}"
          using n1 n2 by (simp add: write_modes_append)
        ultimately show ?thesis by blast
      qed
    qed
  qed
qed

lemma initMain_modes:
  fixes st :: "('x, 'o) sys"
  shows "\<exists>new. trace (snd (initMain E args st)) = trace st @ new
         \<and> set (write_modes f new) \<subseteq> {perm 7 5 5}"
proof -
  define known where "known = (\<lambda>s :: ('x, 'o) sys. \<exists>new. trace s = trace st @ new
         \<and> set (write_modes f new) \<subseteq> {perm 7 5 5})"
  have k0: "known st" by (simp add: known_def)
  have kc: "known (called c x s)" if "known s" "write_modes f [c] = [] \<or> write_modes f [c] = [perm 7 5 5]"
    for c x s
  proof -
    from that(1) obtain new where "trace s = trace st @ new" "set (write_modes f new) \<subseteq> {perm 7 5 5}"
      by (auto simp: known_def)
    then have "trace (called c x s) = trace st @ (new @ [c])"
      "set (write_modes f (new @ [c])) \<subseteq> {perm 7 5 5}"
      using that(2) by (auto simp: write_modes_append)
    then show ?thesis unfolding known_def by blast
  qed
  have "known (snd (initMain E args st))"
    unfolding initMain_def Let_def
    by (auto split: sum.splits prod.splits intro!: kc k0)
  then show ?thesis by (simp add: known_def)
qed

text \<open>
  C5.  The claim is that every code path writes the CA private key with the owner-only
  mode \<^verbatim>\<open>0600\<close>.  \<^verbatim>\<open>initKeyMaterial\<close> does (\<open>initKeyMaterial_key_mode\<close>).  \<^verbatim>\<open>initMain\<close>
  does not: every file it writes, the key included, gets the mode \<^verbatim>\<open>0755\<close>
  (\<open>initMain_modes\<close>), which lets the group and all others read the key.  The theorem
  runs \<^verbatim>\<open>initMain\<close> on an example input.
\<close>

theorem initMain_key_mode:
  "fst (initMain example_env [''csr.json''] (example_sys example_config empty_world)) = None
 \<and> write_modes ''/etc/fabric-ca/server-key.pem''
       (trace (snd (initMain example_env [''csr.json''] (example_sys example_config empty_world))))
     = [perm 7 5 5]
 \<and> \<not> owner_only (perm 7 5 5)"
  by (simp add: initMain_def example_defs called_def Let_def owner_only_def perm_def
                NewBasicKeyRequest_def)

section \<open>Endpoints whose handler cannot be made\<close>

lemma registerHandler_disabled:
  assumes "snd (getHandler (glob st) (world st)) = Some msg"
  shows "registerHandler E path getHandler st
           = (Some (Error (''Endpoint '' @ quoted path @ '' is disabled: '' @ msg)), st)"
  using assms
  by (cases "getHandler (glob st) (world st)") (simp add: registerHandler_def)

lemma registerHandler_logs:
  "registerHandler E path getHandler (st\<lparr> logs := l \<rparr>)
     = (fst (registerHandler E path getHandler st),
        (snd (registerHandler E path getHandler st))\<lparr> logs := l \<rparr>)"
  by (simp add: registerHandler_def called_def Let_def
           split: prod.splits option.splits sum.splits)

lemma registerHandler_frame:
  "logs (snd (registerHandler E path getHandler st)) = logs st"
  by (simp add: registerHandler_def called_def Let_def
           split: prod.splits option.splits sum.splits)

lemma registerHandlerLog_cases:
  "registerHandlerLog E path getHandler st =
     (case fst (registerHandler E path getHandler st) of
        Some (Error msg) \<Rightarrow>
          (None, logf LevelWarning (''Endpoint '' @ quoted path @ '' is disabled: '' @ msg)
                   (snd (registerHandler E path getHandler st)))
      | Some abort \<Rightarrow> (Some abort, snd (registerHandler E path getHandler st))
      | None \<Rightarrow>
          (None, logf LevelInfo (''Endpoint '' @ quoted path @ '' is enabled'')
                   (snd (registerHandler E path getHandler st))))"
  by (cases "registerHandler E path getHandler st")
     (simp add: registerHandlerLog_def split: option.splits error.splits)

lemma registerHandlerLog_after_log:
  "fst (registerHandlerLog E path getHandler (logf lv m st))
     = fst (registerHandlerLog E path getHandler st)"
  "srv (snd (registerHandlerLog E path getHandler (logf lv m st)))
     = srv (snd (registerHandlerLog E path getHandler st))"
  "trace (snd (registerHandlerLog E path getHandler (logf lv m st)))
     = trace (snd (registerHandlerLog E path getHandler st))"
  "world (snd (registerHandlerLog E path getHandler (logf lv m st)))
     = world (snd (registerHandlerLog E path getHandler st))"
proof -
  define l where "l = logs st @ [(lv, m)]"
  have a: "logf lv m st = st\<lparr> logs := l \<rparr>" by (simp add: logf_def l_def)
  obtain r st1 where b: "registerHandler E path getHandler st = (r, st1)"
    by (cases "registerHandler E path getHandler st")
  have c: "registerHandler E path getHandler (st\<lparr> logs := l \<rparr>) = (r, st1\<lparr> logs := l \<rparr>)"
    using registerHandler_logs [where E = E and path = path and getHandler = getHandler
                                  and st = st and l = l] b
    by simp
  show "fst (registerHandlerLog E path getHandler (logf lv m st))
     = fst (registerHandlerLog E path getHandler st)"
    "srv (snd (registerHandlerLog E path getHandler (logf lv m st)))
     = srv (snd (registerHandlerLog E path getHandler st))"
    "trace (snd (registerHandlerLog E path getHandler (logf lv m st)))
     = trace (snd (registerHandlerLog E path getHandler st))"
    "world (snd (registerHandlerLog E path getHandler (logf lv m st)))
     = world (snd (registerHandlerLog E path getHandler st))"
    unfolding a registerHandlerLog_cases b c fst_conv snd_conv
    by (simp_all split: option.splits error.splits)
qed

lemma registerHandlerLog_no_error: "fst (registerHandlerLog E path getHandler st) \<noteq> Some (Error m)"
  by (simp add: registerHandlerLog_cases split: option.splits error.splits)

lemma registerHandler_no_fatal: "fst (registerHandler E path getHandler st) \<noteq> Some (Fatal m)"
  by (simp add: registerHandler_def nil_dereference_def Let_def
           split: prod.splits option.splits sum.splits)

lemma registerHandler_panic:
  assumes "\<And>m p h e. mux_Handle (Http E) m p h \<noteq> Inl e" and "mux (srv st) \<noteq> None"
  shows "fst (registerHandler E path getHandler st) \<noteq> Some (Panic m)"
    and "mux (srv (snd (registerHandler E path getHandler st))) \<noteq> None"
  using assms
  by (auto simp: registerHandler_def Let_def split: prod.splits option.splits sum.splits)

lemma registerHandlerLog_succeeds:
  assumes "\<And>m p h e. mux_Handle (Http E) m p h \<noteq> Inl e" and "mux (srv st) \<noteq> None"
  shows "fst (registerHandlerLog E path getHandler st) = None"
    and "mux (srv (snd (registerHandlerLog E path getHandler st))) \<noteq> None"
  using registerHandler_panic [OF assms, of path getHandler]
        registerHandler_no_fatal [of E path getHandler st]
  by (auto simp: registerHandlerLog_cases split: option.splits error.splits)

lemma and_then_no_error:
  assumes "fst r \<noteq> Some (Error m)" and "\<And>s. fst (f s) \<noteq> Some (Error m)"
  shows "fst (and_then r f) \<noteq> Some (Error m)"
  using assms by (cases r; cases "fst r") auto

lemma registerHandlers_no_error: "fst (registerHandlers E st) \<noteq> Some (Error m)"
  unfolding registerHandlers_def
  by (intro and_then_no_error registerHandlerLog_no_error)

lemma and_then_succeeds:
  assumes "fst r = None \<and> mux (srv (snd r)) \<noteq> None"
      and "\<And>s. mux (srv s) \<noteq> None \<Longrightarrow> fst (f s) = None \<and> mux (srv (snd (f s))) \<noteq> None"
  shows "fst (and_then r f) = None \<and> mux (srv (snd (and_then r f))) \<noteq> None"
  using assms by (cases r) auto

lemma registerHandlers_succeeds:
  assumes "\<And>m p h e. mux_Handle (Http E) m p h \<noteq> Inl e"
  shows "fst (registerHandlers E st) = None"
proof -
  have step: "fst (registerHandlerLog E path g s) = None
                \<and> mux (srv (snd (registerHandlerLog E path g s))) \<noteq> None"
    if "mux (srv s) \<noteq> None" for path g s
    using registerHandlerLog_succeeds [OF assms that] by simp
  have "fst (registerHandlers E st) = None \<and> mux (srv (snd (registerHandlers E st))) \<noteq> None"
    unfolding registerHandlers_def
    by (intro and_then_succeeds step) simp_all
  then show ?thesis by simp
qed

lemma Start_registers_then_listens:
  assumes h: "\<forall>m p h e. mux_Handle (Http E) m p h \<noteq> Inl e"
      and l: "listener (srv st) = None"
      and i: "Init E False (st\<lparr> srv := (srv st)\<lparr> serveError := None \<rparr> \<rparr>) = (None, st1)"
      and c: "Config (srv st1) = Some c"
  shows "Start E st =
           listenAndServe E
             (snd (registerHandlers E
                     (st1\<lparr> glob := (glob st1)\<lparr> CAKeyFile := CA_Keyfile (CA c),
                                                CACertFile := CA_Certfile (CA c) \<rparr> \<rparr>)))"
proof -
  let ?st2 = "st1\<lparr> glob := (glob st1)\<lparr> CAKeyFile := CA_Keyfile (CA c),
                                        CACertFile := CA_Certfile (CA c) \<rparr> \<rparr>"
  have "fst (registerHandlers E ?st2) = None"
    using registerHandlers_succeeds [of E ?st2] h by blast
  then have "and_then (registerHandlers E ?st2) (listenAndServe E)
               = listenAndServe E (snd (registerHandlers E ?st2))"
    by (cases "registerHandlers E ?st2") simp
  then show ?thesis using l i c by (simp add: Start_def Let_def)
qed

text \<open>
  C8.  When the handler constructor of an endpoint returns an error,
  \<^verbatim>\<open>registerHandlerLog\<close> returns normally, the state is as it was (the mux with it: no
  \<^verbatim>\<open>Handle\<close> call) but for one more Warning in the log, and the registration of any
  other endpoint after it has the outcome, the server and the calls it has without the
  failed one.  \<^verbatim>\<open>registerHandlerLog\<close> and \<^verbatim>\<open>registerHandlers\<close> never return an error,
  whatever the constructors do; when \<^verbatim>\<open>mux.Handle\<close> does not panic,
  \<^verbatim>\<open>registerHandlers\<close> completes, and \<^verbatim>\<open>Start\<close>, once \<^verbatim>\<open>Init\<close> has succeeded, goes on
  to \<^verbatim>\<open>listenAndServe\<close> with the endpoints that could be made.
\<close>

theorem registerHandlerLog_constructor_error_is_not_fatal:
  "(snd (getHandler (glob st) (world st)) = Some msg \<longrightarrow>
      registerHandlerLog E path getHandler st
        = (None, logf LevelWarning
                   (''Endpoint '' @ quoted path @ '' is disabled: '' @
                    ''Endpoint '' @ quoted path @ '' is disabled: '' @ msg) st)
    \<and> fst (registerHandlerLog E path2 getHandler2 (snd (registerHandlerLog E path getHandler st)))
        = fst (registerHandlerLog E path2 getHandler2 st)
    \<and> srv (snd (registerHandlerLog E path2 getHandler2
                   (snd (registerHandlerLog E path getHandler st))))
        = srv (snd (registerHandlerLog E path2 getHandler2 st))
    \<and> trace (snd (registerHandlerLog E path2 getHandler2
                     (snd (registerHandlerLog E path getHandler st))))
        = trace (snd (registerHandlerLog E path2 getHandler2 st)))
 \<and> (\<forall>m. fst (registerHandlerLog E path getHandler st) \<noteq> Some (Error m))
 \<and> (\<forall>m. fst (registerHandlers E st) \<noteq> Some (Error m))
 \<and> ((\<forall>m p h e. mux_Handle (Http E) m p h \<noteq> Inl e) \<longrightarrow>
      fst (registerHandlers E st) = None
    \<and> (listener (srv st) = None
       \<and> Init E False (st\<lparr> srv := (srv st)\<lparr> serveError := None \<rparr> \<rparr>) = (None, st1)
       \<and> Config (srv st1) = Some c \<longrightarrow>
         Start E st =
           listenAndServe E
             (snd (registerHandlers E
                     (st1\<lparr> glob := (glob st1)\<lparr> CAKeyFile := CA_Keyfile (CA c),
                                                CACertFile := CA_Certfile (CA c) \<rparr> \<rparr>)))))"
proof (intro conjI impI allI)
  assume a: "snd (getHandler (glob st) (world st)) = Some msg"
  let ?w = "''Endpoint '' @ quoted path @ '' is disabled: '' @
            ''Endpoint '' @ quoted path @ '' is disabled: '' @ msg"
  show r: "registerHandlerLog E path getHandler st = (None, logf LevelWarning ?w st)"
    using registerHandler_disabled [where getHandler = getHandler and st = st, OF a, of E path]
    by (simp add: registerHandlerLog_cases)
  show "fst (registerHandlerLog E path2 getHandler2 (snd (registerHandlerLog E path getHandler st)))
        = fst (registerHandlerLog E path2 getHandler2 st)"
    unfolding r snd_conv by (rule registerHandlerLog_after_log)
  show "srv (snd (registerHandlerLog E path2 getHandler2
                   (snd (registerHandlerLog E path getHandler st))))
        = srv (snd (registerHandlerLog E path2 getHandler2 st))"
    unfolding r snd_conv by (rule registerHandlerLog_after_log)
  show "trace (snd (registerHandlerLog E path2 getHandler2
                     (snd (registerHandlerLog E path getHandler st))))
        = trace (snd (registerHandlerLog E path2 getHandler2 st))"
    unfolding r snd_conv by (rule registerHandlerLog_after_log)
next
  fix m show "fst (registerHandlerLog E path getHandler st) \<noteq> Some (Error m)"
    by (rule registerHandlerLog_no_error)
next
  fix m show "fst (registerHandlers E st) \<noteq> Some (Error m)"
    by (rule registerHandlers_no_error)
next
  assume "\<forall>m p h e. mux_Handle (Http E) m p h \<noteq> Inl e"
  then show "fst (registerHandlers E st) = None"
    using registerHandlers_succeeds [of E st] by blast
next
  assume h: "\<forall>m p h e. mux_Handle (Http E) m p h \<noteq> Inl e"
     and s: "listener (srv st) = None
       \<and> Init E False (st\<lparr> srv := (srv st)\<lparr> serveError := None \<rparr> \<rparr>) = (None, st1)
       \<and> Config (srv st1) = Some c"
  show "Start E st =
           listenAndServe E
             (snd (registerHandlers E
                     (st1\<lparr> glob := (glob st1)\<lparr> CAKeyFile := CA_Keyfile (CA c),
                                                CACertFile := CA_Certfile (CA c) \<rparr> \<rparr>)))"
    using Start_registers_then_listens [OF h] s by blast
qed

lemma example_registerHandlers:
  "mux (srv (snd (registerHandlers example_env (example_sys example_config empty_world)))) = Some 4"
  "map fst (logs (snd (registerHandlers example_env (example_sys example_config empty_world))))
     = [LevelInfo, LevelInfo, LevelInfo, LevelInfo, LevelWarning]"
  "trace (snd (registerHandlers example_env (example_sys example_config empty_world)))
     = [Call_Handle ''/api/v1/cfssl/register'', Call_Handle ''/api/v1/cfssl/enroll'',
        Call_Handle ''/api/v1/cfssl/reenroll'', Call_Handle ''/api/v1/cfssl/revoke'']"
  by (simp_all add: registerHandlers_def registerHandlerLog_def registerHandler_def
        example_defs called_def logf_def Let_def)

lemmas run_defs =
  Init_def initConfig_def initConfig_defaults_def initKeyMaterial_def
  makeFileNamesAbsolute_def name_fields_def writeFile_def aborted_def initDB_def
  initDB_open_def initDB_switch_def opened_def initDB_bootstrap_def initUserRegistry_def
  loadUsersTable_def loadAffiliationsTable_def addIdentity_def addAffiliation_def
  affiliationPath_def getMaxEnrollments_def convertAttrs_def
  initEnrollmentSigner_def initEnrollmentSigner_sign_def
  registerHandlers_def registerHandlerLog_def registerHandler_def
  listenAndServe_def listenAndServe_serve_def JoinHostPort_def quoted_def
  example_defs example_bootstrap_config_def example_identity_def example_tree_def
  called_def logf_def Let_def

lemma example_Init:
  "fst (Init example_env False
          ((example_sys example_bootstrap_config empty_world)
             \<lparr> srv := (srv (example_sys example_bootstrap_config empty_world))
                        \<lparr> serveError := None \<rparr> \<rparr>)) = None"
  "Config (srv (snd (Init example_env False
          ((example_sys example_bootstrap_config empty_world)
             \<lparr> srv := (srv (example_sys example_bootstrap_config empty_world))
                        \<lparr> serveError := None \<rparr> \<rparr>)))) \<noteq> None"
  by (simp_all add: run_defs)

lemma example_listenAndServe:
  fixes st1 :: "(example_world, nat) sys"
  defines "st1 \<equiv> snd (Init example_env False
          ((example_sys example_bootstrap_config empty_world)
             \<lparr> srv := (srv (example_sys example_bootstrap_config empty_world))
                        \<lparr> serveError := None \<rparr> \<rparr>))"
  defines "r \<equiv> listenAndServe example_env
             (snd (registerHandlers example_env
                     (st1\<lparr> glob := (glob st1)
                         \<lparr> CAKeyFile := CA_Keyfile (CA (the (Config (srv st1)))),
                           CACertFile := CA_Certfile (CA (the (Config (srv st1)))) \<rparr> \<rparr>)))"
  shows "fst r = None" "listener (srv (snd r)) = Some 20" "mux (srv (snd r)) = Some 4"
    "filter (\<lambda>l. fst l = LevelWarning) (logs (snd r))
     = [(LevelWarning,
         ''Endpoint 'tcert' is disabled: Endpoint 'tcert' is disabled: TCert is not supported'')]"
  unfolding r_def st1_def
  by (simp_all add: run_defs)

theorem registerHandlerLog_constructor_error_is_not_fatal_witness:
  "snd (NewTCertHandler (Http example_env) (glob (example_sys example_config empty_world))
          (world (example_sys example_config empty_world))) = Some ''TCert is not supported''
 \<and> registerHandlerLog example_env ''tcert'' (NewTCertHandler (Http example_env))
       (example_sys example_config empty_world)
     = (None, logf LevelWarning
          ''Endpoint 'tcert' is disabled: Endpoint 'tcert' is disabled: TCert is not supported''
          (example_sys example_config empty_world))
 \<and> fst (registerHandlers example_env (example_sys example_config empty_world)) = None
 \<and> mux (srv (snd (registerHandlers example_env (example_sys example_config empty_world))))
     = Some 4
 \<and> map fst (logs (snd (registerHandlers example_env (example_sys example_config empty_world))))
     = [LevelInfo, LevelInfo, LevelInfo, LevelInfo, LevelWarning]
 \<and> fst (Start example_env (example_sys example_bootstrap_config empty_world)) = None
 \<and> listener (srv (snd (Start example_env (example_sys example_bootstrap_config empty_world))))
     = Some 20
 \<and> mux (srv (snd (Start example_env (example_sys example_bootstrap_config empty_world))))
     = Some 4
 \<and> filter (\<lambda>l. fst l = LevelWarning)
     (logs (snd (Start example_env (example_sys example_bootstrap_config empty_world))))
     = [(LevelWarning,
         ''Endpoint 'tcert' is disabled: Endpoint 'tcert' is disabled: TCert is not supported'')]"
proof -
  let ?st = "example_sys example_config empty_world"
  let ?s = "example_sys example_bootstrap_config empty_world"
  let ?st1 = "snd (Init example_env False (?s\<lparr> srv := (srv ?s)\<lparr> serveError := None \<rparr> \<rparr>))"
  have a: "snd (NewTCertHandler (Http example_env) (glob ?st) (world ?st))
             = Some ''TCert is not supported''"
    by (simp add: example_env_def example_http_def)
  have h: "\<forall>m p h e. mux_Handle (Http example_env) m p h \<noteq> Inl e"
    by (simp add: example_env_def example_http_def)
  note main = registerHandlerLog_constructor_error_is_not_fatal
    [where getHandler = "NewTCertHandler (Http example_env)" and st = ?st
       and msg = "''TCert is not supported''" and E = example_env and path = "''tcert''"]
  from main a have
    "registerHandlerLog example_env ''tcert'' (NewTCertHandler (Http example_env)) ?st
     = (None, logf LevelWarning
          (''Endpoint '' @ quoted ''tcert'' @ '' is disabled: '' @
           ''Endpoint '' @ quoted ''tcert'' @ '' is disabled: '' @ ''TCert is not supported'') ?st)"
    by blast
  moreover from main h have "fst (registerHandlers example_env ?st) = None"
    by blast
  moreover have l: "listener (srv ?s) = None"
    by (simp add: example_sys_def example_server_def)
  have i: "Init example_env False (?s\<lparr> srv := (srv ?s)\<lparr> serveError := None \<rparr> \<rparr>) = (None, ?st1)"
    using example_Init(1) by (simp add: prod_eq_iff)
  have c: "Config (srv ?st1) = Some (the (Config (srv ?st1)))"
    using example_Init(2) by simp
  have "Start example_env ?s =
          listenAndServe example_env
            (snd (registerHandlers example_env
                    (?st1\<lparr> glob := (glob ?st1)
                        \<lparr> CAKeyFile := CA_Keyfile (CA (the (Config (srv ?st1)))),
                          CACertFile := CA_Certfile (CA (the (Config (srv ?st1)))) \<rparr> \<rparr>)))"
    using registerHandlerLog_constructor_error_is_not_fatal [where E = example_env and st = ?s and ?st1.0 = ?st1
                   and c = "the (Config (srv ?st1))"] h l i c
    by blast
  ultimately show ?thesis using a example_registerHandlers(1,2) example_listenAndServe
    by (simp add: quoted_def)
qed

end
